theory Spec2Isabelle
  imports Complex_Main "HOL-Library.Sublist"
begin

section \<open>JavaScript strings and numbers, as far as the scheduling pipeline uses them\<close>

text \<open>
  Strings are lists of characters and the string operations follow ECMAScript on ASCII text:
  \<open>trim\<close> and the class \<open>\s\<close> take the six ASCII white-space characters, \<open>toLowerCase\<close>
  maps \<open>A..Z\<close> to \<open>a..z\<close>, \<open>length\<close> counts characters. Numbers are the integers among the
  doubles of JavaScript, with the rounding of the language; where an operation of the
  source leaves them (\<open>NaN\<close>, a fraction) the model returns \<open>None\<close>.
\<close>

definition is_space :: "char \<Rightarrow> bool" where
  "is_space c = (c \<in> set [CHR 0x09, CHR 0x0A, CHR 0x0B, CHR 0x0C, CHR 0x0D, CHR '' ''])"

text \<open>\<^verbatim>\<open>s.trim()\<close>\<close>

definition trim :: "string \<Rightarrow> string" where
  "trim s = rev (dropWhile is_space (rev (dropWhile is_space s)))"

text \<open>\<^verbatim>\<open>s.toLowerCase()\<close>\<close>

definition lower_char :: "char \<Rightarrow> char" where
  "lower_char c =
     (case map_of (zip ''ABCDEFGHIJKLMNOPQRSTUVWXYZ'' ''abcdefghijklmnopqrstuvwxyz'') c of
        Some l \<Rightarrow> l
      | None \<Rightarrow> c)"

definition toLowerCase :: "string \<Rightarrow> string" where
  "toLowerCase s = map lower_char s"

text \<open>\<^verbatim>\<open>s.split(d)\<close> for a one-character separator: never the empty list.\<close>

fun split_on :: "char \<Rightarrow> string \<Rightarrow> string list" where
  "split_on d [] = [[]]"
| "split_on d (c # cs) =
     (if c = d then [] # split_on d cs
      else (case split_on d cs of
              p # ps \<Rightarrow> (c # p) # ps
            | [] \<Rightarrow> [[c]]))"

definition digit_chars :: string where
  "digit_chars = ''0123456789''"

definition digit_char :: "nat \<Rightarrow> char" where
  "digit_char d = digit_chars ! (d mod 10)"

fun index_of :: "char \<Rightarrow> string \<Rightarrow> nat option" where
  "index_of c [] = None"
| "index_of c (d # ds) = (if c = d then Some 0 else map_option Suc (index_of c ds))"

definition digit_val :: "char \<Rightarrow> nat option" where
  "digit_val c = index_of c digit_chars"

text \<open>The decimal digits of a non-negative integer, most significant first.\<close>

function digits_of :: "nat \<Rightarrow> string" where
  "digits_of n =
     (if n < 10 then [digit_char n] else digits_of (n div 10) @ [digit_char (n mod 10)])"
  by pat_completeness auto
termination
  by (relation "measure id") auto

declare digits_of.simps [simp del]

text \<open>
  The numbers of the source are IEEE doubles. The model holds the integers among them, as
  values of type \<open>int\<close>, and rounds as the language does: every result of an operation is
  the double nearest to the exact result, the one with the even significand on a tie.
  \<open>round_even n d\<close> is the integer nearest to \<open>n / d\<close>, and \<open>nearest_double n d\<close> the double
  nearest to \<open>n / d\<close>, for \<open>n\<close> and \<open>d\<close> positive and a quotient in the normal range: the
  quotient is scaled by the power of two that brings it between \<open>2^52\<close> and \<open>2^53\<close>, rounded
  there, and scaled back.
\<close>

definition round_even :: "nat \<Rightarrow> nat \<Rightarrow> nat" where
  "round_even n d =
     (let q = n div d; r = n mod d
      in if 2 * r < d then q
         else if 2 * r > d then q + 1
         else if even q then q else q + 1)"

function scale_up :: "nat \<Rightarrow> nat \<Rightarrow> nat" where
  "scale_up n d = (if n = 0 \<or> d * 2 ^ 52 \<le> n then 0 else Suc (scale_up (2 * n) d))"
  by pat_completeness auto
termination
  by (relation "measure (\<lambda>(n, d). d * 2 ^ 52 - n)") auto

declare scale_up.simps [simp del]

function scale_down :: "nat \<Rightarrow> nat \<Rightarrow> nat" where
  "scale_down n d = (if d = 0 \<or> n < d * 2 ^ 53 then 0 else Suc (scale_down n (2 * d)))"
  by pat_completeness auto
termination
  by (relation "measure (\<lambda>(n, d). Suc n - d * 2 ^ 53)") auto

declare scale_down.simps [simp del]

definition nearest_double :: "nat \<Rightarrow> nat \<Rightarrow> real" where
  "nearest_double n d =
     (if n = 0 then 0
      else let u = scale_up n d
           in if 0 < u then real (round_even (n * 2 ^ u) d) / 2 ^ u
              else let w = scale_down n d
                   in real (round_even n (d * 2 ^ w) * 2 ^ w))"

text \<open>\<^verbatim>\<open>a / d\<close> for an integer \<open>a\<close> and a positive integer \<open>d\<close>.\<close>

definition js_divide :: "int \<Rightarrow> nat \<Rightarrow> real" where
  "js_divide a d = (if a < 0 then - nearest_double (nat (- a)) d else nearest_double (nat a) d)"

text \<open>
  A number that is an integer, or \<open>None\<close>: \<open>NaN\<close>, and likewise an infinity, which only a
  value beyond the largest double (about \<open>1.8 * 10^308\<close>) gives. \<open>to_double i\<close> is the
  number that the exact integer result \<open>i\<close> of an operation is rounded to; below \<open>2^53\<close>
  every integer is a double.
\<close>

type_synonym jsnum = "int option"

definition to_double :: "int \<Rightarrow> jsnum" where
  "to_double i =
     (if \<bar>i\<bar> < 2 ^ 53 then Some i
      else let r = \<lfloor>js_divide i 1\<rfloor>
           in if \<bar>r\<bar> < 2 ^ 1024 then Some r else None)"

text \<open>\<^verbatim>\<open>a * b\<close> and \<^verbatim>\<open>a + b\<close>.\<close>

definition js_times :: "jsnum \<Rightarrow> jsnum \<Rightarrow> jsnum" where
  "js_times a b = (case (a, b) of (Some x, Some y) \<Rightarrow> to_double (x * y) | _ \<Rightarrow> None)"

definition js_plus :: "jsnum \<Rightarrow> jsnum \<Rightarrow> jsnum" where
  "js_plus a b = (case (a, b) of (Some x, Some y) \<Rightarrow> to_double (x + y) | _ \<Rightarrow> None)"

text \<open>
  \<^verbatim>\<open>n.toString()\<close> of an integer below \<open>2^53\<close>: its decimal digits. A larger number is
  printed with the fewest digits that read back as the same double, or with an exponent;
  for such a number the model has no text (\<open>None\<close>).
\<close>

definition js_toString :: "int \<Rightarrow> string option" where
  "js_toString i =
     (if \<bar>i\<bar> < 2 ^ 53
      then Some (if i < 0 then CHR ''-'' # digits_of (nat (- i)) else digits_of (nat i))
      else None)"

text \<open>\<^verbatim>\<open>s.padStart(n, c)\<close> with a one-character filler.\<close>

definition padStart :: "nat \<Rightarrow> char \<Rightarrow> string \<Rightarrow> string" where
  "padStart n c s = replicate (n - length s) c @ s"

fun parse_digits :: "nat \<Rightarrow> string \<Rightarrow> nat option" where
  "parse_digits acc [] = Some acc"
| "parse_digits acc (c # cs) =
     (case digit_val c of
        None \<Rightarrow> None
      | Some d \<Rightarrow> parse_digits (10 * acc + d) cs)"

text \<open>
  \<^verbatim>\<open>Number(s)\<close>: white space is trimmed, the empty string is \<open>0\<close>, an optionally signed run
  of decimal digits is the double nearest to its value. Every other text is \<open>None\<close>: it is
  \<open>NaN\<close> or a literal (fraction, exponent, radix prefix, \<open>Infinity\<close>) that the pipeline
  never produces.
\<close>

definition js_Number :: "string \<Rightarrow> jsnum" where
  "js_Number s =
     (case trim s of
        [] \<Rightarrow> Some 0
      | c # r \<Rightarrow>
          if c = CHR ''-''
          then (case parse_digits 0 r of
                  Some n \<Rightarrow> if r = [] then None else to_double (- int n)
                | None \<Rightarrow> None)
          else if c = CHR ''+''
          then (case parse_digits 0 r of
                  Some n \<Rightarrow> if r = [] then None else to_double (int n)
                | None \<Rightarrow> None)
          else (case parse_digits 0 (c # r) of
                  Some n \<Rightarrow> to_double (int n)
                | None \<Rightarrow> None))"

text \<open>
  \<^verbatim>\<open>a % b\<close> on integers: the remainder takes the sign of the dividend. It is exact, as
  the remainder of two doubles is a double.
\<close>

definition js_rem :: "int \<Rightarrow> int \<Rightarrow> int" where
  "js_rem a b = (if a < 0 then - ((- a) mod \<bar>b\<bar>) else a mod \<bar>b\<bar>)"

section \<open>Time strings (utils/validators.js)\<close>

text \<open>
  \<^verbatim>\<open>const [hours, minutes] = timeStr.split(':').map(Number); return hours * 60 + minutes;\<close>
  With fewer than two parts \<open>minutes\<close> is \<open>undefined\<close> and the sum is \<open>NaN\<close>.
\<close>

definition timeToMinutes :: "string \<Rightarrow> jsnum" where
  "timeToMinutes timeStr =
     (case map js_Number (split_on CHR '':'' timeStr) of
        hours # minutes # _ \<Rightarrow> js_plus (js_times hours (Some 60)) minutes
      | _ \<Rightarrow> None)"

text \<open>
  \<^verbatim>\<open>Math.floor(minutes / 60)\<close>, \<^verbatim>\<open>minutes % 60\<close> and the two padded texts, for an
  argument that is an integer and a double.
\<close>

definition minutesToTime :: "int \<Rightarrow> string option" where
  "minutesToTime minutes =
     (let hours = \<lfloor>js_divide minutes 60\<rfloor>;
          mins = js_rem minutes 60
      in case (js_toString hours, js_toString mins) of
           (Some h, Some m) \<Rightarrow> Some (padStart 2 CHR ''0'' h @ '':'' @ padStart 2 CHR ''0'' m)
         | _ \<Rightarrow> None)"

section \<open>Errors\<close>

text \<open>
  The error object of a rejected HTTP request, as far as the code reads it: \<open>error.code\<close>,
  \<open>error.response?.status\<close> and \<open>error.message\<close>.
\<close>

record http_error =
  code :: "string option"
  status :: "int option"
  message :: string

text \<open>
  What the code can raise: a \<open>TypeError\<close> (a property read on \<open>null\<close> or \<open>undefined\<close>), the
  \<open>SyntaxError\<close> of \<open>JSON.parse\<close>, \<open>new Error(text)\<close>, the rejection of an HTTP request, and
  \<open>new Error(prefix + error.message)\<close> around another error.
\<close>

datatype js_error =
    TypeError
  | SyntaxError
  | Error string
  | Rejected http_error
  | Wrapped string js_error

section \<open>Regular expressions\<close>

text \<open>
  The anchored patterns of the source (\<^verbatim>\<open>/^...$/\<close>) are values of \<open>rx\<close>; \<open>rx_match r s\<close> says
  that the whole of \<open>s\<close> matches \<open>r\<close>. The matcher consumes \<open>s\<close> one character at a time and
  keeps the pattern that the rest has to match.
\<close>

datatype rx =
    Fail
  | Eps
  | Cls "char list"
  | NCls "char list"
  | Seq rx rx
  | Alt rx rx
  | Star rx

fun nullable :: "rx \<Rightarrow> bool" where
  "nullable Fail = False"
| "nullable Eps = True"
| "nullable (Cls cs) = False"
| "nullable (NCls cs) = False"
| "nullable (Seq r s) = (nullable r \<and> nullable s)"
| "nullable (Alt r s) = (nullable r \<or> nullable s)"
| "nullable (Star r) = True"

definition seq :: "rx \<Rightarrow> rx \<Rightarrow> rx" where
  "seq r s = (if r = Fail \<or> s = Fail then Fail else if r = Eps then s else Seq r s)"

definition alt :: "rx \<Rightarrow> rx \<Rightarrow> rx" where
  "alt r s = (if r = Fail then s else if s = Fail then r else Alt r s)"

fun after :: "char \<Rightarrow> rx \<Rightarrow> rx" where
  "after c Fail = Fail"
| "after c Eps = Fail"
| "after c (Cls cs) = (if c \<in> set cs then Eps else Fail)"
| "after c (NCls cs) = (if c \<in> set cs then Fail else Eps)"
| "after c (Seq r s) =
     (if nullable r then alt (seq (after c r) s) (after c s) else seq (after c r) s)"
| "after c (Alt r s) = alt (after c r) (after c s)"
| "after c (Star r) = seq (after c r) (Star r)"

fun rx_match :: "rx \<Rightarrow> string \<Rightarrow> bool" where
  "rx_match r [] = nullable r"
| "rx_match r (c # cs) = rx_match (after c r) cs"

text \<open>
  What the matcher computes: \<open>texts r\<close> is the set of the texts that the pattern \<open>r\<close> stands
  for, with \<open>star A\<close> for the repetitions of the texts in \<open>A\<close>.
\<close>

inductive_set star :: "string set \<Rightarrow> string set" for A :: "string set" where
  star_empty: "[] \<in> star A"
| star_more: "u \<in> A \<Longrightarrow> v \<in> star A \<Longrightarrow> u @ v \<in> star A"

fun texts :: "rx \<Rightarrow> string set" where
  "texts Fail = {}"
| "texts Eps = {[]}"
| "texts (Cls cs) = {[c] | c. c \<in> set cs}"
| "texts (NCls cs) = {[c] | c. c \<notin> set cs}"
| "texts (Seq r s) = {u @ v | u v. u \<in> texts r \<and> v \<in> texts s}"
| "texts (Alt r s) = texts r \<union> texts s"
| "texts (Star r) = star (texts r)"

fun seqs :: "rx list \<Rightarrow> rx" where
  "seqs [] = Eps"
| "seqs [r] = r"
| "seqs (r # rs) = Seq r (seqs rs)"

definition space_chars :: string where
  "space_chars = [CHR 0x09, CHR 0x0A, CHR 0x0B, CHR 0x0C, CHR 0x0D, CHR '' '']"

definition lit :: "char \<Rightarrow> rx" where
  "lit c = Cls [c]"

definition opt :: "rx \<Rightarrow> rx" where
  "opt r = Alt r Eps"

text \<open>\<^verbatim>\<open>\d\<close>, \<^verbatim>\<open>\d{1,2}\<close>, \<^verbatim>\<open>\d{2}\<close>, \<^verbatim>\<open>\s*\<close> and \<^verbatim>\<open>(am|pm)\<close> under the flag \<^verbatim>\<open>i\<close>.\<close>

definition digit :: rx where
  "digit = Cls digit_chars"

definition digit12 :: rx where
  "digit12 = Seq digit (opt digit)"

definition digit2 :: rx where
  "digit2 = Seq digit digit"

definition spaces :: rx where
  "spaces = Star (Cls space_chars)"

definition ampm :: rx where
  "ampm = Alt (Seq (Cls ''aA'') (Cls ''mM'')) (Seq (Cls ''pP'') (Cls ''mM''))"

section \<open>Timeframes (utils/validators.js)\<close>

text \<open>
  The three entries of \<open>formats\<close> in \<open>normalizeTimeframe\<close>:
  \<^verbatim>\<open>/^(\d{1,2})(am|pm)\s*-\s*(\d{1,2})(am|pm)$/i\<close>,
  \<^verbatim>\<open>/^(\d{1,2}):(\d{2})\s*-\s*(\d{1,2}):(\d{2})$/\<close> and
  \<^verbatim>\<open>/^(\d{1,2}):(\d{2})\s*(am|pm)\s*-\s*(\d{1,2}):(\d{2})\s*(am|pm)$/i\<close>.
\<close>

definition format_12h :: rx where
  "format_12h = seqs [digit12, ampm, spaces, lit CHR ''-'', spaces, digit12, ampm]"

definition format_24h :: rx where
  "format_24h =
     seqs [digit12, lit CHR '':'', digit2, spaces, lit CHR ''-'', spaces,
           digit12, lit CHR '':'', digit2]"

definition format_mixed :: rx where
  "format_mixed =
     seqs [digit12, lit CHR '':'', digit2, spaces, ampm, spaces, lit CHR ''-'', spaces,
           digit12, lit CHR '':'', digit2, spaces, ampm]"

definition formats :: "rx list" where
  "formats = [format_12h, format_24h, format_mixed]"

text \<open>The comparisons and the difference of two numbers; with \<open>NaN\<close> a comparison is false.\<close>

definition js_ge :: "jsnum \<Rightarrow> jsnum \<Rightarrow> bool" where
  "js_ge a b = (case (a, b) of (Some x, Some y) \<Rightarrow> x \<ge> y | _ \<Rightarrow> False)"

definition js_lt :: "jsnum \<Rightarrow> jsnum \<Rightarrow> bool" where
  "js_lt a b = (case (a, b) of (Some x, Some y) \<Rightarrow> x < y | _ \<Rightarrow> False)"

definition js_gt :: "jsnum \<Rightarrow> jsnum \<Rightarrow> bool" where
  "js_gt a b = (case (a, b) of (Some x, Some y) \<Rightarrow> x > y | _ \<Rightarrow> False)"

definition js_minus :: "jsnum \<Rightarrow> jsnum \<Rightarrow> jsnum" where
  "js_minus a b = (case (a, b) of (Some x, Some y) \<Rightarrow> Some (x - y) | _ \<Rightarrow> None)"

record normalized =
  startTime :: jsnum
  endTime :: jsnum
  formatted :: string

text \<open>
  \<open>parseTimeMatch\<close> is the placeholder of the source: whatever the match, it returns \<open>null\<close>.
\<close>

definition parseTimeMatch :: "string \<Rightarrow> normalized option" where
  "parseTimeMatch match = None"

definition presets :: "(string \<times> string \<times> string) list" where
  "presets =
     [(''morning'', ''09:00'', ''12:00''),
      (''afternoon'', ''13:00'', ''17:00''),
      (''evening'', ''18:00'', ''21:00''),
      (''workday'', ''09:00'', ''17:00''),
      (''business hours'', ''09:00'', ''17:00'')]"

text \<open>
  \<open>presets[key]\<close> reads an object literal, so besides the five own properties it finds what
  the object inherits. Of the inherited names only \<open>constructor\<close> and \<open>__proto__\<close> are in
  lower case and can be the result of \<open>toLowerCase\<close>; their values are truthy and have no
  \<open>start\<close>, so \<open>timeToMinutes(undefined)\<close> raises a \<open>TypeError\<close>.
\<close>

datatype preset_entry = Own string string | Inherited | Undefined

definition presets_get :: "string \<Rightarrow> preset_entry" where
  "presets_get key =
     (case map_of presets key of
        Some (s, e) \<Rightarrow> Own s e
      | None \<Rightarrow> if key \<in> set [''constructor'', ''__proto__''] then Inherited else Undefined)"

definition normalizeTimeframe :: "string \<Rightarrow> js_error + normalized option" where
  "normalizeTimeframe timeframe =
     (case find (\<lambda>format. rx_match format timeframe) formats of
        Some format \<Rightarrow> Inr (parseTimeMatch timeframe)
      | None \<Rightarrow>
          (case presets_get (toLowerCase timeframe) of
             Own s e \<Rightarrow>
               Inr (Some \<lparr>startTime = timeToMinutes s, endTime = timeToMinutes e,
                          formatted = s @ '' - '' @ e\<rparr>)
           | Inherited \<Rightarrow> Inl TypeError
           | Undefined \<Rightarrow> Inr None))"

text \<open>
  The results of \<open>validateTimeframe\<close> that are not valid, by their message:
  \<open>TimeframeRequired\<close> 'Timeframe is required';
  \<open>InvalidFormatHint\<close> 'Invalid timeframe format. Use formats like ...';
  \<open>EndBeforeStart\<close> 'End time must be after start time';
  \<open>TooShort\<close> 'Schedule duration must be at least 1 hour';
  \<open>TooLong\<close> 'Schedule duration cannot exceed 16 hours';
  \<open>InvalidFormat\<close> 'Invalid timeframe format', the answer of the \<open>catch\<close> block.
\<close>

datatype timeframe_error =
    TimeframeRequired
  | InvalidFormatHint
  | EndBeforeStart
  | TooShort
  | TooLong
  | InvalidFormat

text \<open>
  The checks of \<open>validateTimeframe\<close> that follow the call of \<open>normalizeTimeframe\<close>; a valid
  result carries the normalized timeframe and its duration.
\<close>

definition check_normalized :: "normalized \<Rightarrow> timeframe_error + normalized \<times> jsnum" where
  "check_normalized n =
     (if js_ge (startTime n) (endTime n) then Inl EndBeforeStart
      else let duration = js_minus (endTime n) (startTime n)
           in if js_lt duration (Some 60) then Inl TooShort
              else if js_gt duration (Some 960) then Inl TooLong
              else Inr (n, duration))"

definition validateTimeframe :: "string \<Rightarrow> timeframe_error + normalized \<times> jsnum" where
  "validateTimeframe timeframe =
     (if timeframe = [] then Inl TimeframeRequired
      else (case normalizeTimeframe (trim timeframe) of
              Inl raised \<Rightarrow> Inl InvalidFormat
            | Inr None \<Rightarrow> Inl InvalidFormatHint
            | Inr (Some n) \<Rightarrow> check_normalized n))"

text \<open>\<^verbatim>\<open>/^([01]?[0-9]|2[0-3]):[0-5][0-9]$/.test(timeStr)\<close>, after the test \<open>!timeStr\<close>.\<close>

definition time_rx :: rx where
  "time_rx =
     seqs [Alt (Seq (opt (Cls ''01'')) digit) (Seq (lit CHR ''2'') (Cls ''0123'')),
           lit CHR '':'', Cls ''012345'', digit]"

definition isValidTime :: "string \<Rightarrow> bool" where
  "isValidTime timeStr = (timeStr \<noteq> [] \<and> rx_match time_rx timeStr)"

section \<open>Command parsing (utils/validators.js)\<close>

definition dquote :: char where
  "dquote = CHR 0x22"

text \<open>
  \<^verbatim>\<open>text.match(/([^"]+)|"([^"]*)"/g)\<close>: the matches from left to right. At a character that
  is not a quote the first alternative takes the whole run up to the next quote; at a quote
  the second alternative takes the text up to and with the closing quote; a quote that is
  never closed matches nothing and is skipped. \<open>null\<close>, the answer when nothing matches, is
  the empty list.
\<close>

function tokens :: "string \<Rightarrow> string list" where
  "tokens [] = []"
| "tokens (c # cs) =
     (if c \<noteq> dquote
      then (c # takeWhile (\<lambda>x. x \<noteq> dquote) cs) # tokens (dropWhile (\<lambda>x. x \<noteq> dquote) cs)
      else (case dropWhile (\<lambda>x. x \<noteq> dquote) cs of
              [] \<Rightarrow> tokens cs
            | q # rest \<Rightarrow> (dquote # takeWhile (\<lambda>x. x \<noteq> dquote) cs @ [dquote]) # tokens rest))"
  by pat_completeness auto
termination
proof (relation "measure length", goal_cases)
  case 1
  show ?case by simp
next
  case (2 c cs)
  show ?case by (simp add: length_dropWhile_le less_Suc_eq_le)
next
  case (3 c cs)
  show ?case by simp
next
  case (4 c cs q rest)
  have "length (dropWhile (\<lambda>x. x \<noteq> dquote) cs) \<le> length cs"
    by (rule length_dropWhile_le)
  with 4 show ?case by simp
qed

text \<open>\<^verbatim>\<open>part.startsWith('"') && part.endsWith('"')\<close> and \<^verbatim>\<open>part.slice(1, -1)\<close>.\<close>

definition quoted :: "string \<Rightarrow> bool" where
  "quoted part = (part \<noteq> [] \<and> hd part = dquote \<and> last part = dquote)"

definition slice_1_m1 :: "string \<Rightarrow> string" where
  "slice_1_m1 part = butlast (tl part)"

record task =
  id' :: string
  description :: string
  priority :: string
  type' :: string
  preferred_time :: "string option"

definition validPriorities :: "string list" where
  "validPriorities = [''high'', ''medium'', ''low'']"

definition validTypes :: "string list" where
  "validTypes = [''general'', ''meeting'', ''learning'']"

text \<open>
  \<^verbatim>\<open>taskText.match(/^(.+?)\s*\(([^)]+)\)$/)\<close>, as the two groups of the match.
  \<open>task_rest\<close> matches \<^verbatim>\<open>\s*\(([^)]+)\)$\<close> against the rest of the text and returns the second
  group. The first group is lazy: \<open>task_match_from\<close> lengthens it one character at a time,
  none of them a line terminator, until the rest matches.
\<close>

definition task_rest :: "string \<Rightarrow> string option" where
  "task_rest s =
     (case dropWhile is_space s of
        [] \<Rightarrow> None
      | c # r \<Rightarrow>
          if c = CHR ''(''
          then (let params = takeWhile (\<lambda>x. x \<noteq> CHR '')'') r
                in if params \<noteq> [] \<and> dropWhile (\<lambda>x. x \<noteq> CHR '')'') r = '')''
                   then Some params else None)
          else None)"

fun task_match_from :: "string \<Rightarrow> string \<Rightarrow> (string \<times> string) option" where
  "task_match_from taken [] = None"
| "task_match_from taken (c # cs) =
     (if c \<in> set [CHR 0x0A, CHR 0x0D] then None
      else (case task_rest cs of
              Some params \<Rightarrow> Some (taken @ [c], params)
            | None \<Rightarrow> task_match_from (taken @ [c]) cs))"

definition task_match :: "string \<Rightarrow> (string \<times> string) option" where
  "task_match taskText = task_match_from [] taskText"

text \<open>
  The body of \<^verbatim>\<open>params.forEach\<close>, on the three variables it assigns: \<open>priority\<close>, \<open>type\<close>
  and \<open>preferred_time\<close>.
\<close>

definition set_param ::
  "string \<times> string \<times> string option \<Rightarrow> string \<Rightarrow> string \<times> string \<times> string option" where
  "set_param vars param =
     (case vars of (prio, typ, pref) \<Rightarrow>
        if param \<in> set validPriorities then (param, typ, pref)
        else if param \<in> set validTypes then (prio, param, pref)
        else if isValidTime param then (prio, typ, Some param)
        else vars)"

text \<open>
  \<open>parseTask\<close> takes the identifier that \<open>generateTaskId\<close> draws from the clock and the random
  generator as its first argument. Its \<open>catch\<close> block, the only place that returns \<open>null\<close>,
  is not reached with a string argument.
\<close>

definition parseTask :: "string \<Rightarrow> string \<Rightarrow> task" where
  "parseTask new_id taskText =
     (case task_match taskText of
        None \<Rightarrow>
          \<lparr>id' = new_id, description = trim taskText, priority = ''medium'',
           type' = ''general'', preferred_time = None\<rparr>
      | Some (group1, group2) \<Rightarrow>
          (case foldl set_param (''medium'', ''general'', None)
                  (map (\<lambda>p. toLowerCase (trim p)) (split_on CHR '','' group2)) of
             (prio, typ, pref) \<Rightarrow>
               \<lparr>id' = new_id, description = trim group1, priority = prio,
                type' = typ, preferred_time = pref\<rparr>))"

record parsed_command =
  timeframe :: "string option"
  tasks :: "task list"

text \<open>
  \<open>ids n\<close> is the identifier generated for the task at position \<open>n\<close>. Since \<open>parseTask\<close> does
  not return \<open>null\<close> here, the last filter of the source keeps every task.
\<close>

definition parseScheduleCommand :: "(nat \<Rightarrow> string) \<Rightarrow> string \<Rightarrow> parsed_command" where
  "parseScheduleCommand ids text =
     (if trim text = [] then \<lparr>timeframe = None, tasks = []\<rparr>
      else (case tokens text of
              [] \<Rightarrow> \<lparr>timeframe = None, tasks = []\<rparr>
            | first # rest \<Rightarrow>
                \<lparr>timeframe = Some (trim first),
                 tasks = map (\<lambda>(n, part). parseTask (ids n) (slice_1_m1 part))
                           (enumerate 0 (filter quoted rest))\<rparr>))"

section \<open>Task validation (utils/validators.js, utils.js)\<close>

datatype 'e validation = Valid | Invalid 'e

text \<open>
  The messages of \<open>validateTask\<close>: 'Task description is required', 'Task description cannot
  exceed 200 characters', 'Priority must be one of: ...', 'Type must be one of: ...',
  'Invalid preferred time format'.
\<close>

datatype task_error =
    DescriptionRequired
  | DescriptionTooLong
  | InvalidPriority
  | InvalidType
  | InvalidPreferredTime

text \<open>
  The messages of \<open>validateTasks\<close> and \<open>validateInput\<close>: 'At least one task is required',
  'Maximum \<open>n\<close> tasks allowed per schedule', 'Task \<open>i\<close>: ' followed by the task's message,
  'Timeframe is required', and the error that the parser of utils.js reported.
\<close>

datatype tasks_error =
    AtLeastOneTask
  | MaximumTasks nat
  | InvalidTask nat task_error
  | TimeframeMissing
  | Reported string

text \<open>
  A task is a record with string fields, so the tests of the source for a missing or
  non-string field reduce to the tests for the empty string (which is falsy).
\<close>

definition validateTask :: "task \<Rightarrow> task_error validation" where
  "validateTask t =
     (if description t = [] \<or> trim (description t) = [] then Invalid DescriptionRequired
      else if length (description t) > 200 then Invalid DescriptionTooLong
      else if priority t \<noteq> [] \<and> priority t \<notin> set validPriorities then Invalid InvalidPriority
      else if type' t \<noteq> [] \<and> type' t \<notin> set validTypes then Invalid InvalidType
      else (case preferred_time t of
              Some p \<Rightarrow> if p \<noteq> [] \<and> \<not> isValidTime p then Invalid InvalidPreferredTime else Valid
            | None \<Rightarrow> Valid))"

text \<open>The loop of \<open>validateTasks\<close>, from index \<open>i\<close> on.\<close>

fun validate_from :: "nat \<Rightarrow> task list \<Rightarrow> tasks_error validation" where
  "validate_from i [] = Valid"
| "validate_from i (t # ts) =
     (case validateTask t of
        Invalid e \<Rightarrow> Invalid (InvalidTask (i + 1) e)
      | Valid \<Rightarrow> validate_from (i + 1) ts)"

definition validateTasks :: "task list \<Rightarrow> tasks_error validation" where
  "validateTasks ts =
     (if length ts = 0 then Invalid AtLeastOneTask
      else if length ts > 20 then Invalid (MaximumTasks 20)
      else validate_from 0 ts)"

text \<open>The parsed input of utils.js: either an error, or a timeframe and tasks.\<close>

record 't parsed_input =
  input_error :: "string option"
  input_timeframe :: "string option"
  input_tasks :: "'t list option"

definition truthy_string :: "string option \<Rightarrow> bool" where
  "truthy_string v = (case v of None \<Rightarrow> False | Some s \<Rightarrow> s \<noteq> [])"

definition validateInput :: "'t parsed_input \<Rightarrow> tasks_error validation" where
  "validateInput input =
     (case input_error input of
        Some (c # cs) \<Rightarrow> Invalid (Reported (c # cs))
      | _ \<Rightarrow>
          if \<not> truthy_string (input_timeframe input) then Invalid TimeframeMissing
          else (case input_tasks input of
                  None \<Rightarrow> Invalid AtLeastOneTask
                | Some ts \<Rightarrow>
                    if length ts = 0 then Invalid AtLeastOneTask
                    else if length ts > 15 then Invalid (MaximumTasks 15)
                    else Valid))"

text \<open>
  A command text in the format of the slash command: a leading unquoted part \<open>lead\<close> (the
  place of the timeframe) and then, for each entry \<open>(t, u)\<close> of \<open>items\<close>, the task string \<open>t\<close>
  between double quotes followed by the unquoted text \<open>u\<close>.
\<close>

definition items_text :: "(string \<times> string) list \<Rightarrow> string" where
  "items_text items = concat (map (\<lambda>(t, u). dquote # t @ dquote # u) items)"

definition command_text :: "string \<Rightarrow> (string \<times> string) list \<Rightarrow> string" where
  "command_text lead items = lead @ items_text items"

definition no_quote :: "string \<Rightarrow> bool" where
  "no_quote s = (dquote \<notin> set s)"

text \<open>A task as the tests of the repository build them, for the examples below.\<close>

definition sample_task :: task where
  "sample_task = \<lparr>id' = ''task1'', description = ''Task 1'', priority = ''high'',
                   type' = ''general'', preferred_time = Some ''14:00''\<rparr>"

section \<open>Backend replies (nim-service.js, services/nim-service.js)\<close>

text \<open>
  The values that \<open>JSON.parse\<close> returns. An object is the list of its properties; a number
  is its value. \<open>JSON.parse\<close> itself belongs to the language, not to the repository: the
  functions below take it as the parameter \<open>JSON_parse\<close>, with \<open>None\<close> for a text that it
  rejects with a \<open>SyntaxError\<close>.
\<close>

datatype json =
    JNull
  | JBool bool
  | JNum real
  | JStr string
  | JArr "json list"
  | JObj "(string \<times> json) list"

text \<open>
  \<open>v.k\<close> for the property names that the code reads (\<open>schedule\<close>, \<open>task\<close>, \<open>start_time\<close>,
  \<open>end_time\<close>, none of them a property of arrays, strings, numbers or booleans): \<open>field\<close>
  for a value that is not \<open>null\<close>, with \<open>None\<close> for \<open>undefined\<close>; on \<open>null\<close> the read raises a
  \<open>TypeError\<close>.
\<close>

definition field :: "json \<Rightarrow> string \<Rightarrow> json option" where
  "field v k = (case v of JObj ps \<Rightarrow> map_of ps k | _ \<Rightarrow> None)"

definition read_prop :: "json \<Rightarrow> string \<Rightarrow> js_error + json option" where
  "read_prop v k = (if v = JNull then Inl TypeError else Inr (field v k))"

text \<open>The truth value of a value or \<open>undefined\<close> in a condition.\<close>

fun truthy :: "json option \<Rightarrow> bool" where
  "truthy None = False"
| "truthy (Some JNull) = False"
| "truthy (Some (JBool b)) = b"
| "truthy (Some (JNum x)) = (x \<noteq> 0)"
| "truthy (Some (JStr s)) = (s \<noteq> [])"
| "truthy (Some (JArr xs)) = True"
| "truthy (Some (JObj ps)) = True"

text \<open>\<open>Array.isArray\<close>, and the elements of an array.\<close>

fun isArray :: "json option \<Rightarrow> bool" where
  "isArray (Some (JArr xs)) = True"
| "isArray _ = False"

fun elements :: "json option \<Rightarrow> json list" where
  "elements (Some (JArr xs)) = xs"
| "elements _ = []"

text \<open>
  \<^verbatim>\<open>response.replace(/```json\n?|\n?```/g, '')\<close>: at each position the first alternative
  (the fence with \<open>json\<close> and a newline if there is one) is tried before the second (a
  newline if there is one, then the fence); what matches is dropped.
\<close>

definition fence :: string where
  "fence = ''```''"

definition newline :: char where
  "newline = CHR 0x0A"

function strip_fences :: "string \<Rightarrow> string" where
  "strip_fences [] = []"
| "strip_fences (c # cs) =
     (if prefix (fence @ ''json'' @ [newline]) (c # cs) then strip_fences (drop 8 (c # cs))
      else if prefix (fence @ ''json'') (c # cs) then strip_fences (drop 7 (c # cs))
      else if prefix (newline # fence) (c # cs) then strip_fences (drop 4 (c # cs))
      else if prefix fence (c # cs) then strip_fences (drop 3 (c # cs))
      else c # strip_fences cs)"
  by pat_completeness auto
termination
  by (relation "measure length") auto

text \<open>
  The fallback schedule of nim-service.js. It does not read its argument, and the caller's
  timeframe and tasks are not passed to it.
\<close>

definition createFallbackSchedule :: "string \<Rightarrow> json" where
  "createFallbackSchedule originalResponse =
     JObj [
       (''schedule'', JArr [
          JObj [(''task_id'', JNum 1),
                (''start_time'', JStr ''09:00''),
                (''end_time'', JStr ''17:00''),
                (''duration'', JNum 480),
                (''task'', JStr ''Review and organize your tasks''),
                (''priority'', JStr ''medium''),
                (''type'', JStr ''general''),
                (''reasoning'', JStr ''AI response could not be parsed - please try again'')]]),
       (''summary'', JObj [(''total_tasks'', JNum 1),
                           (''total_duration'', JNum 480),
                           (''productivity_score'', JNum 5)]),
       (''recommendations'', JArr [
          JStr ''Try rephrasing your tasks or timeframe'',
          JStr (''Ensure tasks follow the format: '' @ [CHR 0x27] @
                ''Description (priority, type)'' @ [CHR 0x27])]),
       (''error'', JStr ''Could not parse AI response - showing fallback schedule'')]"

text \<open>The callback of \<open>schedule.schedule.forEach\<close>, from index \<open>index\<close> on.\<close>

fun check_items :: "nat \<Rightarrow> json list \<Rightarrow> js_error + unit" where
  "check_items index [] = Inr ()"
| "check_items index (item # items) =
     (if item = JNull then Inl TypeError
      else if \<not> truthy (field item ''task'') \<or> \<not> truthy (field item ''start_time'')
              \<or> \<not> truthy (field item ''end_time'')
      then Inl (Error (''Invalid task at index '' @ digits_of index @
                       '' - missing required fields''))
      else check_items (index + 1) items)"

text \<open>The \<open>try\<close> block of \<open>parseScheduleResponse\<close>.\<close>

definition parse_checked :: "(string \<Rightarrow> json option) \<Rightarrow> string \<Rightarrow> js_error + json" where
  "parse_checked JSON_parse response =
     (let cleanResponse = trim (strip_fences response)
      in case JSON_parse cleanResponse of
           None \<Rightarrow> Inl SyntaxError
         | Some schedule \<Rightarrow>
             (case read_prop schedule ''schedule'' of
                Inl raised \<Rightarrow> Inl raised
              | Inr s \<Rightarrow>
                  if \<not> truthy s \<or> \<not> isArray s
                  then Inl (Error ''Invalid schedule format - missing schedule array'')
                  else (case check_items 0 (elements s) of
                          Inl raised \<Rightarrow> Inl raised
                        | Inr u \<Rightarrow> Inr schedule)))"

definition parseScheduleResponse :: "(string \<Rightarrow> json option) \<Rightarrow> string \<Rightarrow> json" where
  "parseScheduleResponse JSON_parse response =
     (case parse_checked JSON_parse response of
        Inr schedule \<Rightarrow> schedule
      | Inl caught \<Rightarrow> createFallbackSchedule response)"

text \<open>\<open>validateScheduleResponse\<close> of services/nim-service.js raises instead.\<close>

definition validateScheduleResponse :: "json \<Rightarrow> js_error + json" where
  "validateScheduleResponse scheduleData =
     (case read_prop scheduleData ''schedule'' of
        Inl raised \<Rightarrow> Inl raised
      | Inr s \<Rightarrow>
          if \<not> truthy s \<or> \<not> isArray s
          then Inl (Error ''Invalid schedule format received from NIM'')
          else Inr scheduleData)"

section \<open>The inference client (nim-service.js, services/nim-service.js)\<close>

text \<open>
  The backend is a script: \<open>backend n\<close> is how the HTTP request number \<open>n\<close> (from 0) of a run
  ends, with the text of the first choice's message or with a rejection. The request body is
  the same in every attempt of a call, so the script does not read it. What a call does is
  recorded as a trace of events: a request sent, a delay of so many milliseconds awaited.
\<close>

datatype outcome = Reply string | Failure http_error

datatype event = Post | Delay int

definition posts :: "event list \<Rightarrow> nat" where
  "posts tr = length (filter (\<lambda>e. e = Post) tr)"

text \<open>\<open>isRetryableError\<close> of nim-service.js.\<close>

definition isRetryableError :: "http_error \<Rightarrow> bool" where
  "isRetryableError error =
     (if code error = Some ''ECONNABORTED'' then True
      else if (case status error of Some s \<Rightarrow> s \<ge> 500 | None \<Rightarrow> False) then True
      else if status error = Some 429 then True
      else False)"

text \<open>\<open>isRetryableError\<close> of services/nim-service.js.\<close>

definition retryableStatus :: "int list" where
  "retryableStatus = [408, 429, 500, 502, 503, 504]"

definition services_isRetryableError :: "http_error \<Rightarrow> bool" where
  "services_isRetryableError error =
     ((case status error of Some s \<Rightarrow> s \<in> set retryableStatus | None \<Rightarrow> False)
      \<or> code error = Some ''ECONNRESET'')"

text \<open>
  \<open>callNIM(prompt, attempt = 1)\<close> of nim-service.js: the result and the trace, which
  extends the trace \<open>tr\<close> of what happened before.
\<close>

function callNIM ::
  "int \<Rightarrow> (nat \<Rightarrow> outcome) \<Rightarrow> nat \<Rightarrow> event list \<Rightarrow> (http_error + string) \<times> event list" where
  "callNIM maxRetries backend attempt tr =
     (case backend (posts tr) of
        Reply content \<Rightarrow> (Inr content, tr @ [Post])
      | Failure error \<Rightarrow>
          if int attempt \<le> maxRetries \<and> isRetryableError error
          then callNIM maxRetries backend (attempt + 1)
                 (tr @ [Post, Delay (1000 * int attempt)])
          else (Inl error, tr @ [Post]))"
  by pat_completeness auto
termination
  by (relation "measure (\<lambda>(maxRetries, backend, attempt, tr). nat (maxRetries + 1 - int attempt))")
    auto

declare callNIM.simps [simp del]

text \<open>\<open>makeRequest(endpoint, data, retryCount = 0)\<close> of services/nim-service.js.\<close>

function makeRequest ::
  "int \<Rightarrow> (nat \<Rightarrow> outcome) \<Rightarrow> nat \<Rightarrow> event list \<Rightarrow> (http_error + string) \<times> event list" where
  "makeRequest maxRetries backend retryCount tr =
     (case backend (posts tr) of
        Reply content \<Rightarrow> (Inr content, tr @ [Post])
      | Failure error \<Rightarrow>
          if int retryCount < maxRetries \<and> services_isRetryableError error
          then makeRequest maxRetries backend (retryCount + 1)
                 (tr @ [Post, Delay (2 ^ retryCount * 1000)])
          else (Inl error, tr @ [Post]))"
  by pat_completeness auto
termination
  by (relation "measure (\<lambda>(maxRetries, backend, retryCount, tr). nat (maxRetries - int retryCount))")
    auto

declare makeRequest.simps [simp del]

text \<open>
  \<open>generateSchedule(timeframe, tasks)\<close> of nim-service.js. The timeframe \<open>tf\<close> and the tasks
  \<open>ts\<close> go into the prompt only.
\<close>

definition generateSchedule ::
  "(string \<Rightarrow> json option) \<Rightarrow> int \<Rightarrow> (nat \<Rightarrow> outcome) \<Rightarrow> string \<Rightarrow> task list \<Rightarrow>
     (js_error + json) \<times> event list" where
  "generateSchedule JSON_parse maxRetries backend tf ts =
     (case callNIM maxRetries backend 1 [] of
        (Inr response, tr) \<Rightarrow> (Inr (parseScheduleResponse JSON_parse response), tr)
      | (Inl error, tr) \<Rightarrow>
          (Inl (Wrapped ''Failed to generate schedule: '' (Rejected error)), tr))"

text \<open>\<open>generateSchedule\<close> of services/nim-service.js.\<close>

definition services_generateSchedule ::
  "(string \<Rightarrow> json option) \<Rightarrow> int \<Rightarrow> (nat \<Rightarrow> outcome) \<Rightarrow> string \<Rightarrow> task list \<Rightarrow>
     (js_error + json) \<times> event list" where
  "services_generateSchedule JSON_parse maxRetries backend tf ts =
     (case makeRequest maxRetries backend 0 [] of
        (Inr content, tr) \<Rightarrow>
          (case JSON_parse content of
             None \<Rightarrow> (Inl (Wrapped ''Schedule generation failed: '' SyntaxError), tr)
           | Some scheduleData \<Rightarrow>
               (case validateScheduleResponse scheduleData of
                  Inr schedule \<Rightarrow> (Inr schedule, tr)
                | Inl raised \<Rightarrow> (Inl (Wrapped ''Schedule generation failed: '' raised), tr)))
      | (Inl error, tr) \<Rightarrow>
          (Inl (Wrapped ''Schedule generation failed: '' (Rejected error)), tr))"


text \<open>Rejections for the examples below: by HTTP status, and by error code.\<close>

definition status_error :: "int \<Rightarrow> http_error" where
  "status_error s = \<lparr>code = None, status = Some s, message = []\<rparr>"

definition code_error :: "string \<Rightarrow> http_error" where
  "code_error c = \<lparr>code = Some c, status = None, message = []\<rparr>"



section \<open>Reading a generated schedule\<close>

text \<open>
  The schedule array of a value: its property \<open>schedule\<close>, when that is an array.
\<close>

definition schedule_array :: "json \<Rightarrow> json list option" where
  "schedule_array v = (case field v ''schedule'' of Some (JArr items) \<Rightarrow> Some items | _ \<Rightarrow> None)"

text \<open>
  An item has its task label, its start time and its end time when the three properties are
  there with a truthy value (not \<open>null\<close>, \<open>false\<close>, \<open>0\<close> or the empty string).
\<close>

definition complete_item :: "json \<Rightarrow> bool" where
  "complete_item item =
     (truthy (field item ''task'') \<and> truthy (field item ''start_time'') \<and>
      truthy (field item ''end_time''))"

text \<open>\<open>summary.total_tasks\<close>, the diagnostic (the property \<open>error\<close>) and an item's window.\<close>

definition total_tasks :: "json \<Rightarrow> json option" where
  "total_tasks g = (case field g ''summary'' of Some s \<Rightarrow> field s ''total_tasks'' | None \<Rightarrow> None)"

definition diagnostic :: "json \<Rightarrow> string" where
  "diagnostic g = (case field g ''error'' of Some (JStr d) \<Rightarrow> d | _ \<Rightarrow> [])"

definition item_window :: "json \<Rightarrow> (jsnum \<times> jsnum) option" where
  "item_window item =
     (case (field item ''start_time'', field item ''end_time'') of
        (Some (JStr a), Some (JStr b)) \<Rightarrow> Some (timeToMinutes a, timeToMinutes b)
      | _ \<Rightarrow> None)"

text \<open>
  The schedule \<open>g\<close> is one item that spans the window of the normalized timeframe \<open>n\<close>.
\<close>

definition spans_window :: "json \<Rightarrow> normalized \<Rightarrow> bool" where
  "spans_window g n =
     (case schedule_array g of
        Some [item] \<Rightarrow> item_window item = Some (startTime n, endTime n)
      | _ \<Rightarrow> False)"

text \<open>
  For the examples: a reply with one complete item, the value that \<open>JSON.parse\<close> returns for
  it, and a stand-in for \<open>JSON.parse\<close> that agrees with it on this reply, on \<open>{}\<close> and on every
  text that is not JSON.
\<close>

definition sample_reply :: string where
  "sample_reply =
     ''{'' @ dquote # ''schedule'' @ dquote # '':[{'' @
       dquote # ''task'' @ dquote # '':'' @ dquote # ''Test task'' @ dquote # '','' @
       dquote # ''start_time'' @ dquote # '':'' @ dquote # ''09:00'' @ dquote # '','' @
       dquote # ''end_time'' @ dquote # '':'' @ dquote # ''10:00'' @ dquote # ''}]}''"

definition sample_value :: json where
  "sample_value =
     JObj [(''schedule'', JArr [
       JObj [(''task'', JStr ''Test task''), (''start_time'', JStr ''09:00''),
             (''end_time'', JStr ''10:00'')]])]"

definition sample_JSON_parse :: "string \<Rightarrow> json option" where
  "sample_JSON_parse s =
     (if s = sample_reply then Some sample_value
      else if s = ''{}'' then Some (JObj [])
      else None)"

text \<open>The sample reply between code fences, and the normalized preset \<open>morning\<close>.\<close>

definition fenced_reply :: string where
  "fenced_reply = fence @ ''json'' @ [newline] @ sample_reply @ [newline] @ fence"

definition morning :: normalized where
  "morning = \<lparr>startTime = Some 540, endTime = Some 720, formatted = ''09:00 - 12:00''\<rparr>"

section \<open>The matcher and the texts of a pattern\<close>

lemma nullable_texts: "nullable r \<longleftrightarrow> [] \<in> texts r"
  by (induction r) (auto intro: star_empty)

lemma texts_seq: "texts (seq r s) = texts (Seq r s)"
  by (auto simp: seq_def)

lemma texts_alt: "texts (alt r s) = texts (Alt r s)"
  by (auto simp: alt_def)

lemma star_tail:
  assumes "x \<in> star A" and "x = c # w"
  shows "\<exists>u v. w = u @ v \<and> c # u \<in> A \<and> v \<in> star A"
  using assms
proof (induction arbitrary: w rule: star.induct)
  case star_empty
  then show ?case by simp
next
  case (star_more u v)
  show ?case
  proof (cases u)
    case Nil
    with star_more show ?thesis by simp
  next
    case (Cons d u')
    with star_more.prems have "d = c" and "w = u' @ v" by simp_all
    with Cons star_more.hyps show ?thesis by blast
  qed
qed

lemma star_cons:
  "c # w \<in> star A \<longleftrightarrow> (\<exists>u v. w = u @ v \<and> c # u \<in> A \<and> v \<in> star A)"
proof
  assume "c # w \<in> star A"
  then show "\<exists>u v. w = u @ v \<and> c # u \<in> A \<and> v \<in> star A"
    by (rule star_tail) simp
next
  assume "\<exists>u v. w = u @ v \<and> c # u \<in> A \<and> v \<in> star A"
  then obtain u v where "w = u @ v" "c # u \<in> A" "v \<in> star A" by blast
  then show "c # w \<in> star A"
    using star_more [of "c # u" A v] by simp
qed

lemma texts_after: "texts (after c r) = {w. c # w \<in> texts r}"
proof (induction r)
  case (Seq r s)
  have split: "\<And>w. c # w \<in> texts (Seq r s) \<longleftrightarrow>
      (\<exists>u v. w = u @ v \<and> c # u \<in> texts r \<and> v \<in> texts s) \<or> ([] \<in> texts r \<and> c # w \<in> texts s)"
    by (auto simp: Cons_eq_append_conv)
  show ?case
  proof (cases "nullable r")
    case True
    then have "[] \<in> texts r" by (simp add: nullable_texts)
    with True Seq show ?thesis
      by (auto simp: texts_alt texts_seq split simp del: texts.simps(5))
        (auto)
  next
    case False
    then have "[] \<notin> texts r" by (simp add: nullable_texts)
    with False Seq show ?thesis
      by (auto simp: texts_seq split simp del: texts.simps(5)) auto
  qed
next
  case (Star r)
  then show ?case
    by (auto simp: texts_seq star_cons)
qed (auto simp: texts_alt)

lemma rx_match_texts: "rx_match r s \<longleftrightarrow> s \<in> texts r"
  by (induction s arbitrary: r) (simp_all add: nullable_texts texts_after)

section \<open>Round trip of the two time conversions\<close>

lemma index_of_nth: "distinct xs \<Longrightarrow> k < length xs \<Longrightarrow> index_of (xs ! k) xs = Some k"
proof (induction xs arbitrary: k)
  case Nil
  then show ?case by simp
next
  case (Cons x xs)
  show ?case
  proof (cases k)
    case 0
    then show ?thesis by simp
  next
    case (Suc j)
    with Cons.prems have "j < length xs" "xs ! j \<noteq> x"
      by auto
    with Cons.IH Cons.prems Suc show ?thesis by auto
  qed
qed

lemma digit_val_digit_char: "digit_val (digit_char d) = Some (d mod 10)"
  unfolding digit_val_def digit_char_def
  by (rule index_of_nth) (simp_all add: digit_chars_def)

lemma digit_char_in_digits: "digit_char d \<in> set digit_chars"
  unfolding digit_char_def by (rule nth_mem) (simp add: digit_chars_def)

lemma digits_of_subset: "set (digits_of n) \<subseteq> set digit_chars"
proof (induction n rule: digits_of.induct)
  case (1 n)
  show ?case
  proof (cases "n < 10")
    case True
    then show ?thesis
      using digit_char_in_digits [of n] by (simp add: digits_of.simps [of n])
  next
    case False
    then show ?thesis
      using "1.IH" digit_char_in_digits [of "n mod 10"] by (simp add: digits_of.simps [of n])
  qed
qed

lemma digits_of_nonempty: "digits_of n \<noteq> []"
  by (simp add: digits_of.simps [of n])

lemma parse_digits_append:
  "parse_digits acc (xs @ ys) =
     (case parse_digits acc xs of None \<Rightarrow> None | Some v \<Rightarrow> parse_digits v ys)"
  by (induction xs arbitrary: acc) (simp_all split: option.splits)

lemma parse_digits_digits_of: "parse_digits 0 (digits_of n) = Some n"
proof (induction n rule: digits_of.induct)
  case (1 n)
  show ?case
  proof (cases "n < 10")
    case True
    then show ?thesis
      by (simp add: digits_of.simps [of n] digit_val_digit_char)
  next
    case False
    then have "parse_digits 0 (digits_of (n div 10)) = Some (n div 10)"
      using "1.IH" by simp
    then show ?thesis
      using False by (simp add: digits_of.simps [of n] parse_digits_append digit_val_digit_char)
  qed
qed

lemma parse_digits_zeros: "parse_digits 0 (replicate k CHR ''0'' @ s) = parse_digits 0 s"
  by (induction k) (simp_all add: digit_val_def digit_chars_def)

lemma digit_chars_not_space: "c \<in> set digit_chars \<Longrightarrow> \<not> is_space c"
  by (auto simp: digit_chars_def is_space_def)

lemma trim_no_space: "\<forall>c \<in> set s. \<not> is_space c \<Longrightarrow> trim s = s"
proof -
  assume a: "\<forall>c \<in> set s. \<not> is_space c"
  then have "dropWhile is_space s = s"
    by (cases s) simp_all
  moreover from a have "dropWhile is_space (rev s) = rev s"
    by (cases "rev s") (simp, metis dropWhile.simps(2) list.set_intros(1) set_rev)
  ultimately show ?thesis by (simp add: trim_def)
qed

lemma js_Number_padded_digits:
  assumes "n < 2 ^ 53"
  shows "js_Number (padStart 2 CHR ''0'' (digits_of n)) = Some (int n)"
proof -
  let ?s = "padStart 2 CHR ''0'' (digits_of n)"
  have sub: "set ?s \<subseteq> set digit_chars"
    using digits_of_subset [of n] by (auto simp: padStart_def digit_chars_def)
  then have "\<forall>c \<in> set ?s. \<not> is_space c"
    using digit_chars_not_space by blast
  then have t: "trim ?s = ?s" by (rule trim_no_space)
  have ne: "?s \<noteq> []" by (simp add: padStart_def digits_of_nonempty)
  then obtain c r where cr: "?s = c # r" by (cases ?s) auto
  then have "c \<in> set digit_chars" using sub by auto
  then have "c \<noteq> CHR ''-''" "c \<noteq> CHR ''+''" by (auto simp: digit_chars_def)
  moreover have "parse_digits 0 ?s = Some n"
    by (simp add: padStart_def parse_digits_zeros parse_digits_digits_of)
  moreover from assms have "to_double (int n) = Some (int n)"
    by (simp add: to_double_def)
  ultimately show ?thesis
    using t cr by (simp add: js_Number_def)
qed

lemma split_on_no_sep: "d \<notin> set s \<Longrightarrow> split_on d s = [s]"
  by (induction s) auto

lemma split_on_one_sep:
  "d \<notin> set a \<Longrightarrow> d \<notin> set b \<Longrightarrow> split_on d (a @ d # b) = [a, b]"
  by (induction a) (auto simp: split_on_no_sep)

lemma padded_digits_no_colon: "CHR '':'' \<notin> set (padStart 2 CHR ''0'' (digits_of n))"
  using digits_of_subset [of n] by (auto simp: padStart_def digit_chars_def)

text \<open>Rounding to the nearest integer stays within a half of the quotient.\<close>

lemma round_even_lower: "n div d \<le> round_even n d"
  by (simp add: round_even_def Let_def)

lemma round_even_upper:
  assumes "0 < d"
  shows "2 * d * round_even n d \<le> 2 * n + d"
proof -
  define a where "a = d * (n div d)"
  define r where "r = n mod d"
  have n: "2 * n = 2 * a + 2 * r"
    by (simp add: a_def r_def flip: distrib_left)
  have q: "2 * d * (n div d) = 2 * a" and q1: "2 * d * (n div d + 1) = 2 * a + 2 * d"
    by (simp_all add: a_def algebra_simps)
  have less: "2 * d * (n div d) \<le> 2 * n + d"
    using n q by linarith
  have more: "d \<le> 2 * (n mod d) \<Longrightarrow> 2 * d * (n div d + 1) \<le> 2 * n + d"
    using n q1 unfolding r_def [symmetric] by linarith
  show ?thesis
    using less more by (auto simp: round_even_def Let_def)
qed

lemma scale_up_reaches: "0 < n \<Longrightarrow> d * 2 ^ 52 \<le> n * 2 ^ scale_up n d"
proof (induction n d rule: scale_up.induct)
  case (1 n d)
  show ?case
  proof (cases "d * 2 ^ 52 \<le> n")
    case True
    then show ?thesis by (simp add: scale_up.simps [of n d])
  next
    case False
    with "1.prems" have "d * 2 ^ 52 \<le> 2 * n * 2 ^ scale_up (2 * n) d"
      using "1.IH" by simp
    with False "1.prems" show ?thesis
      by (simp add: scale_up.simps [of n d] mult.assoc)
  qed
qed

text \<open>
  Below \<open>2^53\<close> the rounded quotient by 60 has the floor of the exact quotient: the
  rounding moves it by less than a sixtieth.
\<close>

lemma floor_divide_60:
  assumes "m < 2 ^ 53"
  shows "\<lfloor>js_divide (int m) 60\<rfloor> = int (m div 60)"
proof (cases "m = 0")
  case True
  then show ?thesis by (simp add: js_divide_def nearest_double_def)
next
  case False
  define u where "u = scale_up m 60"
  define p :: nat where "p = 2 ^ u"
  define k where "k = round_even (m * p) 60"
  define q where "q = m div 60"
  define r where "r = m mod 60"
  from False have pos: "0 < m" by simp
  have reach: "60 * 2 ^ 52 \<le> m * p"
    unfolding p_def u_def using pos by (rule scale_up_reaches)
  have big: "30 < p"
  proof (rule ccontr)
    assume "\<not> 30 < p"
    then have "m * p \<le> m * 30" by simp
    also from assms have "\<dots> < 60 * 2 ^ 52" by simp
    finally show False using reach by simp
  qed
  then have u: "0 < u"
    unfolding p_def by (cases u) auto
  have m: "m = 60 * q + r" and r: "r < 60"
    by (simp_all add: q_def r_def)
  have mp: "m * p = 60 * (q * p) + r * p"
    by (simp add: m algebra_simps)
  have rp: "r * p \<le> 59 * p"
    using r by simp
  have low: "q * p \<le> k"
  proof -
    have "q * p \<le> (m * p) div 60"
      by (simp add: mp)
    also have "\<dots> \<le> k"
      unfolding k_def by (rule round_even_lower)
    finally show ?thesis .
  qed
  have "2 * 60 * k \<le> 2 * (m * p) + 60"
    unfolding k_def by (rule round_even_upper) simp
  with mp rp big have "120 * k < 120 * (q * p) + 120 * p"
    by linarith
  then have high: "k < p * Suc q"
    by (simp add: algebra_simps)
  from low have "p * q \<le> k" by (simp add: mult.commute)
  then have "k div p = q"
    using high by (rule div_nat_eqI)
  moreover have "js_divide (int m) 60 = real k / real p"
    using False u by (simp add: js_divide_def nearest_double_def k_def p_def u_def Let_def)
  ultimately show ?thesis
    by (simp add: floor_divide_of_nat_eq q_def)
qed

text \<open>
  C10 (as amended). For a number of minutes \<open>m\<close> below \<open>2^53\<close>, rendering it as \<open>HH:MM\<close> and
  reading the text back gives \<open>m\<close> again: \<open>minutesToTime\<close> writes \<open>floor (m / 60)\<close> and
  \<open>m mod 60\<close>, each padded to two digits, and \<open>timeToMinutes\<close> recombines them as
  \<open>hours * 60 + minutes\<close>.
\<close>

theorem timeToMinutes_minutesToTime:
  assumes "m < 2 ^ 53"
  shows "minutesToTime (int m) =
           Some (padStart 2 CHR ''0'' (digits_of (m div 60)) @ '':'' @
                 padStart 2 CHR ''0'' (digits_of (m mod 60))) \<and>
         timeToMinutes (padStart 2 CHR ''0'' (digits_of (m div 60)) @ '':'' @
                        padStart 2 CHR ''0'' (digits_of (m mod 60))) = Some (int m)"
proof -
  let ?h = "m div 60" and ?r = "m mod 60"
  let ?s = "padStart 2 CHR ''0'' (digits_of ?h) @ '':'' @ padStart 2 CHR ''0'' (digits_of ?r)"
  from assms have hb: "?h < 2 ^ 53" and rb: "?r < 2 ^ 53"
    by (auto intro: le_less_trans [of _ m])
  have "int m mod 60 = int ?r"
    by (simp add: zmod_int)
  then have mins: "js_rem (int m) 60 = int ?r"
    by (simp add: js_rem_def)
  have th: "js_toString (int ?h) = Some (digits_of ?h)"
    and tr: "js_toString (int ?r) = Some (digits_of ?r)"
    using hb rb by (simp_all add: js_toString_def)
  have render: "minutesToTime (int m) = Some ?s"
    by (simp add: minutesToTime_def floor_divide_60 [OF assms] mins th tr del: of_nat_div of_nat_mod)
  have "split_on CHR '':'' ?s =
      [padStart 2 CHR ''0'' (digits_of ?h), padStart 2 CHR ''0'' (digits_of ?r)]"
    by (simp add: split_on_one_sep padded_digits_no_colon)
  then have "timeToMinutes ?s = js_plus (js_times (Some (int ?h)) (Some 60)) (Some (int ?r))"
    using hb rb by (simp add: timeToMinutes_def js_Number_padded_digits)
  moreover have "int ?h * 60 + int ?r = int m"
    by (metis div_mult_mod_eq of_nat_add of_nat_mult of_nat_numeral)
  moreover have "\<bar>int ?h * 60\<bar> < 2 ^ 53" and "\<bar>int m\<bar> < 2 ^ 53"
    using assms by auto
  ultimately have "timeToMinutes ?s = Some (int m)"
    by (simp add: js_times_def js_plus_def to_double_def)
  with render show ?thesis by simp
qed

lemmas number_defs = minutesToTime_def timeToMinutes_def js_Number_def trim_def is_space_def
  digit_val_def digit_chars_def digit_char_def js_times_def js_plus_def to_double_def
  js_divide_def nearest_double_def scale_up.simps scale_down.simps round_even_def js_rem_def
  js_toString_def digits_of.simps padStart_def Let_def

theorem timeToMinutes_minutesToTime_witness:
  "(570 :: nat) < 2 ^ 53 \<and> minutesToTime 570 = Some ''09:30'' \<and>
   timeToMinutes ''09:30'' = Some 570"
  using timeToMinutes_minutesToTime [of 570]
  by (simp add: digits_of.simps digit_char_def digit_chars_def padStart_def)

text \<open>
  C10 as stated fails beyond \<open>2^53\<close>, where the quotient by 60 is rounded to a double
  before \<open>Math.floor\<close>. The number 67553994410557496 is a double with the exact quotient
  \<open>2^50 + 14 / 15\<close>, which rounds to \<open>2^50 + 1\<close>; the text is \<open>1125899906842625:56\<close>, and
  reading it back gives 67553994410557560.
\<close>

theorem minutesToTime_rounds:
  "to_double 67553994410557496 = Some 67553994410557496 \<and>
   minutesToTime 67553994410557496 = Some ''1125899906842625:56'' \<and>
   timeToMinutes ''1125899906842625:56'' = Some 67553994410557560 \<and>
   timeToMinutes ''1125899906842625:56'' \<noteq> Some 67553994410557496"
  by (simp add: number_defs)

section \<open>Timeframe normalization and validation\<close>

lemmas rx_defs = format_12h_def format_24h_def format_mixed_def lit_def digit_def opt_def
  digit12_def digit2_def spaces_def ampm_def space_chars_def digit_chars_def seq_def alt_def

lemma timeToMinutes_presets:
  "timeToMinutes ''09:00'' = Some 540" "timeToMinutes ''12:00'' = Some 720"
  "timeToMinutes ''13:00'' = Some 780" "timeToMinutes ''17:00'' = Some 1020"
  "timeToMinutes ''18:00'' = Some 1080" "timeToMinutes ''21:00'' = Some 1260"
  by (simp_all add: timeToMinutes_def js_Number_def trim_def is_space_def digit_val_def
      digit_chars_def js_times_def js_plus_def to_double_def)

text \<open>
  C2. The timeframe \<open>9AM-5PM\<close> is matched by the 12-hour format matcher, the first of the
  three; the claim expects the offsets 540 and 1020 from it. The source hands the match to
  \<open>parseTimeMatch\<close>, its unfinished placeholder, so \<open>normalizeTimeframe\<close> returns \<open>null\<close> and
  \<open>validateTimeframe\<close> answers with the invalid-format message.
\<close>

theorem normalizeTimeframe_9AM_5PM:
  "rx_match format_12h ''9AM-5PM'' \<and> normalizeTimeframe ''9AM-5PM'' = Inr None \<and>
   validateTimeframe ''9AM-5PM'' = Inl InvalidFormatHint \<and>
   rx_match format_24h ''09:00-17:00'' \<and> normalizeTimeframe ''09:00-17:00'' = Inr None \<and>
   rx_match format_mixed ''9:00 AM - 5:00 PM'' \<and>
   normalizeTimeframe ''9:00 AM - 5:00 PM'' = Inr None"
  by (simp add: validateTimeframe_def normalizeTimeframe_def formats_def parseTimeMatch_def
      trim_def is_space_def rx_defs)

lemma normalizeTimeframe_matched:
  "\<exists>format \<in> set formats. rx_match format t \<Longrightarrow> normalizeTimeframe t = Inr None"
  by (auto simp: normalizeTimeframe_def parseTimeMatch_def find_None_iff split: option.splits)

lemma find_formats_None:
  "\<forall>format \<in> set formats. \<not> rx_match format t \<Longrightarrow>
   find (\<lambda>format. rx_match format t) formats = None"
  by (simp add: find_None_iff)

lemma normalizeTimeframe_unmatched:
  assumes "\<forall>format \<in> set formats. \<not> rx_match format t"
  shows "normalizeTimeframe t =
     (case presets_get (toLowerCase t) of
        Own s e \<Rightarrow> Inr (Some \<lparr>startTime = timeToMinutes s, endTime = timeToMinutes e,
                                 formatted = s @ '' - '' @ e\<rparr>)
      | Inherited \<Rightarrow> Inl TypeError
      | Undefined \<Rightarrow> Inr None)"
  by (simp add: normalizeTimeframe_def find_formats_None [OF assms])

lemma presets_get_not_preset:
  "k \<notin> fst ` set presets \<Longrightarrow> presets_get k = Inherited \<or> presets_get k = Undefined"
  by (auto simp: presets_get_def map_of_eq_None_iff [symmetric] split: option.splits)

text \<open>
  C7. For a timeframe that no format matcher matches, \<open>normalizeTimeframe\<close> looks its lower-case
  form up among the presets: \<open>morning\<close> gives 540 to 720, \<open>afternoon\<close> 780 to 1020, \<open>evening\<close>
  1080 to 1260, \<open>workday\<close> and \<open>business hours\<close> 540 to 1020. A text that is neither matched
  nor a preset yields no offsets: \<open>normalizeTimeframe\<close> returns \<open>null\<close> (or raises, for the two
  inherited property names), and \<open>validateTimeframe\<close> reports an invalid format either way.
\<close>

theorem normalizeTimeframe_presets:
  assumes "\<forall>format \<in> set formats. \<not> rx_match format t"
  shows "(toLowerCase t = ''morning'' \<longrightarrow> normalizeTimeframe t =
            Inr (Some \<lparr>startTime = Some 540, endTime = Some 720, formatted = ''09:00 - 12:00''\<rparr>)) \<and>
         (toLowerCase t = ''afternoon'' \<longrightarrow> normalizeTimeframe t =
            Inr (Some \<lparr>startTime = Some 780, endTime = Some 1020, formatted = ''13:00 - 17:00''\<rparr>)) \<and>
         (toLowerCase t = ''evening'' \<longrightarrow> normalizeTimeframe t =
            Inr (Some \<lparr>startTime = Some 1080, endTime = Some 1260, formatted = ''18:00 - 21:00''\<rparr>)) \<and>
         (toLowerCase t \<in> {''workday'', ''business hours''} \<longrightarrow> normalizeTimeframe t =
            Inr (Some \<lparr>startTime = Some 540, endTime = Some 1020, formatted = ''09:00 - 17:00''\<rparr>)) \<and>
         (toLowerCase t \<notin> fst ` set presets \<longrightarrow>
            (normalizeTimeframe t = Inr None \<or> normalizeTimeframe t = Inl TypeError) \<and>
            (\<forall>tf. tf \<noteq> [] \<and> trim tf = t \<longrightarrow>
               validateTimeframe tf = Inl InvalidFormatHint \<or> validateTimeframe tf = Inl InvalidFormat))"
proof -
  note n = normalizeTimeframe_unmatched [OF assms]
  have a: "toLowerCase t = ''morning'' \<longrightarrow> normalizeTimeframe t =
            Inr (Some \<lparr>startTime = Some 540, endTime = Some 720, formatted = ''09:00 - 12:00''\<rparr>)"
    by (simp add: n presets_get_def presets_def timeToMinutes_presets)
  have b: "toLowerCase t = ''afternoon'' \<longrightarrow> normalizeTimeframe t =
            Inr (Some \<lparr>startTime = Some 780, endTime = Some 1020, formatted = ''13:00 - 17:00''\<rparr>)"
    by (simp add: n presets_get_def presets_def timeToMinutes_presets)
  have c: "toLowerCase t = ''evening'' \<longrightarrow> normalizeTimeframe t =
            Inr (Some \<lparr>startTime = Some 1080, endTime = Some 1260, formatted = ''18:00 - 21:00''\<rparr>)"
    by (simp add: n presets_get_def presets_def timeToMinutes_presets)
  have d: "toLowerCase t \<in> {''workday'', ''business hours''} \<longrightarrow> normalizeTimeframe t =
            Inr (Some \<lparr>startTime = Some 540, endTime = Some 1020, formatted = ''09:00 - 17:00''\<rparr>)"
    by (auto simp: n presets_get_def presets_def timeToMinutes_presets)
  have e: "toLowerCase t \<notin> fst ` set presets \<longrightarrow>
            (normalizeTimeframe t = Inr None \<or> normalizeTimeframe t = Inl TypeError) \<and>
            (\<forall>tf. tf \<noteq> [] \<and> trim tf = t \<longrightarrow>
               validateTimeframe tf = Inl InvalidFormatHint \<or> validateTimeframe tf = Inl InvalidFormat)"
  proof
    assume "toLowerCase t \<notin> fst ` set presets"
    then have "presets_get (toLowerCase t) = Inherited \<or> presets_get (toLowerCase t) = Undefined"
      by (rule presets_get_not_preset)
    then have r: "normalizeTimeframe t = Inr None \<or> normalizeTimeframe t = Inl TypeError"
      by (auto simp: n)
    then show "(normalizeTimeframe t = Inr None \<or> normalizeTimeframe t = Inl TypeError) \<and>
            (\<forall>tf. tf \<noteq> [] \<and> trim tf = t \<longrightarrow>
               validateTimeframe tf = Inl InvalidFormatHint \<or> validateTimeframe tf = Inl InvalidFormat)"
      by (auto simp: validateTimeframe_def)
  qed
  from a b c d e show ?thesis by blast
qed

theorem normalizeTimeframe_presets_witness:
  "\<not> rx_match format_12h ''Morning'' \<and> \<not> rx_match format_24h ''Morning'' \<and>
   \<not> rx_match format_mixed ''Morning'' \<and>
   toLowerCase ''Morning'' = ''morning'' \<and>
   normalizeTimeframe ''Morning'' =
     Inr (Some \<lparr>startTime = Some 540, endTime = Some 720, formatted = ''09:00 - 12:00''\<rparr>) \<and>
   \<not> rx_match format_12h ''lunchtime'' \<and> \<not> rx_match format_24h ''lunchtime'' \<and>
   \<not> rx_match format_mixed ''lunchtime'' \<and>
   toLowerCase ''lunchtime'' \<notin> fst ` set presets \<and> trim '' lunchtime'' = ''lunchtime'' \<and>
   normalizeTimeframe ''lunchtime'' = Inr None \<and>
   validateTimeframe '' lunchtime'' = Inl InvalidFormatHint"
proof -
  have m: "\<forall>format \<in> set formats. \<not> rx_match format ''Morning''"
    and l: "\<forall>format \<in> set formats. \<not> rx_match format ''lunchtime''"
    by (simp_all add: formats_def rx_defs)
  have lm: "toLowerCase ''Morning'' = ''morning''"
    and ll: "toLowerCase ''lunchtime'' \<notin> fst ` set presets"
    and tl: "trim '' lunchtime'' = ''lunchtime''"
    by (simp_all add: toLowerCase_def lower_char_def presets_def trim_def is_space_def)
  have nl: "normalizeTimeframe ''lunchtime'' = Inr None"
    by (simp add: normalizeTimeframe_unmatched [OF l] presets_get_def presets_def
        toLowerCase_def lower_char_def)
  have vl: "validateTimeframe '' lunchtime'' = Inl InvalidFormatHint"
    by (simp add: validateTimeframe_def tl nl)
  show ?thesis
    using normalizeTimeframe_presets [OF m] normalizeTimeframe_presets [OF l] m l lm ll tl nl vl
    by (simp add: formats_def)
qed

lemma normalizeTimeframe_numbers:
  assumes "normalizeTimeframe t = Inr (Some v)"
  shows "\<exists>s e. startTime v = Some s \<and> endTime v = Some e"
proof (cases "find (\<lambda>format. rx_match format t) formats")
  case (Some format)
  with assms show ?thesis
    by (simp add: normalizeTimeframe_def parseTimeMatch_def)
next
  case None
  show ?thesis
  proof (cases "presets_get (toLowerCase t)")
    case (Own s e)
    then have "map_of presets (toLowerCase t) = Some (s, e)"
      by (auto simp: presets_get_def split: option.splits if_splits)
    then have "(toLowerCase t, s, e) \<in> set presets"
      by (rule map_of_SomeD)
    then have "timeToMinutes s \<noteq> None \<and> timeToMinutes e \<noteq> None"
      by (auto simp: presets_def timeToMinutes_presets)
    moreover have "v = \<lparr>startTime = timeToMinutes s, endTime = timeToMinutes e,
        formatted = s @ '' - '' @ e\<rparr>"
      using assms None Own by (simp add: normalizeTimeframe_def)
    ultimately show ?thesis by auto
  next
    case Inherited
    with assms None show ?thesis by (simp add: normalizeTimeframe_def)
  next
    case Undefined
    with assms None show ?thesis by (simp add: normalizeTimeframe_def)
  qed
qed

lemma check_normalized_valid:
  assumes "check_normalized n = Inr (v, d)" and "startTime n = Some s" and "endTime n = Some e"
  shows "v = n \<and> d = Some (e - s) \<and> 60 \<le> e - s \<and> e - s \<le> 960"
  using assms
  by (auto simp: check_normalized_def js_ge_def js_lt_def js_gt_def js_minus_def Let_def
      split: if_splits)

lemma validateTimeframe_valid:
  assumes "validateTimeframe tf = Inr (v, d)"
  shows "\<exists>s e. startTime v = Some s \<and> endTime v = Some e \<and> d = Some (e - s) \<and>
           60 \<le> e - s \<and> e - s \<le> 960"
proof -
  from assms obtain n where n: "normalizeTimeframe (trim tf) = Inr (Some n)"
    and c: "check_normalized n = Inr (v, d)"
    by (auto simp: validateTimeframe_def split: if_splits sum.splits option.splits)
  from normalizeTimeframe_numbers [OF n] obtain s e
    where se: "startTime n = Some s" "endTime n = Some e" by blast
  from check_normalized_valid [OF c se] se show ?thesis by auto
qed

text \<open>
  C6. Whatever produced the offsets \<open>s\<close> and \<open>e\<close>, \<open>validateTimeframe\<close> applies the same three
  checks to them, in this order: unless \<open>e > s\<close> the result is the order error; unless
  \<open>e - s \<ge> 60\<close> the too-short error; unless \<open>e - s \<le> 960\<close> the too-long error. Hence every
  timeframe that passes validation has a duration between 60 and 960 minutes.
\<close>

theorem check_normalized_policy:
  assumes "startTime n = Some s" and "endTime n = Some e"
  shows "(\<not> e > s \<longrightarrow> check_normalized n = Inl EndBeforeStart) \<and>
         (e > s \<and> \<not> e - s \<ge> 60 \<longrightarrow> check_normalized n = Inl TooShort) \<and>
         (e > s \<and> e - s \<ge> 60 \<and> \<not> e - s \<le> 960 \<longrightarrow> check_normalized n = Inl TooLong) \<and>
         (e > s \<and> 60 \<le> e - s \<and> e - s \<le> 960 \<longrightarrow> check_normalized n = Inr (n, Some (e - s))) \<and>
         (\<forall>tf. tf \<noteq> [] \<and> normalizeTimeframe (trim tf) = Inr (Some n) \<longrightarrow>
            validateTimeframe tf = check_normalized n) \<and>
         (\<forall>tf v d. validateTimeframe tf = Inr (v, d) \<longrightarrow>
            (\<exists>s' e'. startTime v = Some s' \<and> endTime v = Some e' \<and> d = Some (e' - s') \<and>
               60 \<le> e' - s' \<and> e' - s' \<le> 960))"
proof -
  have "\<not> e > s \<longrightarrow> check_normalized n = Inl EndBeforeStart"
    using assms by (simp add: check_normalized_def js_ge_def)
  moreover have "e > s \<and> \<not> e - s \<ge> 60 \<longrightarrow> check_normalized n = Inl TooShort"
    using assms by (simp add: check_normalized_def js_ge_def js_lt_def js_minus_def)
  moreover have "e > s \<and> e - s \<ge> 60 \<and> \<not> e - s \<le> 960 \<longrightarrow> check_normalized n = Inl TooLong"
    using assms by (simp add: check_normalized_def js_ge_def js_lt_def js_gt_def js_minus_def)
  moreover have "e > s \<and> 60 \<le> e - s \<and> e - s \<le> 960 \<longrightarrow>
      check_normalized n = Inr (n, Some (e - s))"
    using assms by (simp add: check_normalized_def js_ge_def js_lt_def js_gt_def js_minus_def)
  moreover have "\<forall>tf. tf \<noteq> [] \<and> normalizeTimeframe (trim tf) = Inr (Some n) \<longrightarrow>
      validateTimeframe tf = check_normalized n"
    by (simp add: validateTimeframe_def)
  moreover have "\<forall>tf v d. validateTimeframe tf = Inr (v, d) \<longrightarrow>
      (\<exists>s' e'. startTime v = Some s' \<and> endTime v = Some e' \<and> d = Some (e' - s') \<and>
         60 \<le> e' - s' \<and> e' - s' \<le> 960)"
    using validateTimeframe_valid by blast
  ultimately show ?thesis by blast
qed

theorem check_normalized_policy_witness:
  "startTime \<lparr>startTime = Some 540, endTime = Some 720, formatted = ''09:00 - 12:00''\<rparr> = Some 540 \<and>
   endTime \<lparr>startTime = Some 540, endTime = Some 720, formatted = ''09:00 - 12:00''\<rparr> = Some 720 \<and>
   check_normalized \<lparr>startTime = Some 540, endTime = Some 720, formatted = ''09:00 - 12:00''\<rparr> =
     Inr (\<lparr>startTime = Some 540, endTime = Some 720, formatted = ''09:00 - 12:00''\<rparr>, Some 180) \<and>
   check_normalized \<lparr>startTime = Some 600, endTime = Some 540, formatted = []\<rparr> = Inl EndBeforeStart \<and>
   check_normalized \<lparr>startTime = Some 540, endTime = Some 570, formatted = []\<rparr> = Inl TooShort \<and>
   check_normalized \<lparr>startTime = Some 0, endTime = Some 1000, formatted = []\<rparr> = Inl TooLong \<and>
   validateTimeframe ''morning'' =
     Inr (\<lparr>startTime = Some 540, endTime = Some 720, formatted = ''09:00 - 12:00''\<rparr>, Some 180)"
proof -
  let ?n = "\<lparr>startTime = Some 540, endTime = Some 720, formatted = ''09:00 - 12:00''\<rparr>"
  have m: "\<forall>format \<in> set formats. \<not> rx_match format ''morning''"
    by (simp add: formats_def rx_defs)
  have t: "trim ''morning'' = ''morning''"
    by (simp add: trim_def is_space_def)
  have n: "normalizeTimeframe (trim ''morning'') = Inr (Some ?n)"
    by (simp add: t normalizeTimeframe_unmatched [OF m] presets_get_def presets_def
        toLowerCase_def lower_char_def timeToMinutes_presets)
  have s: "startTime ?n = Some 540" and e: "endTime ?n = Some 720"
    by simp_all
  show ?thesis
    using check_normalized_policy [OF s e] n
      check_normalized_policy [of "\<lparr>startTime = Some 600, endTime = Some 540, formatted = []\<rparr>" 600 540]
      check_normalized_policy [of "\<lparr>startTime = Some 540, endTime = Some 570, formatted = []\<rparr>" 540 570]
      check_normalized_policy [of "\<lparr>startTime = Some 0, endTime = Some 1000, formatted = []\<rparr>" 0 1000]
    by simp
qed

section \<open>Command parsing\<close>

lemma takeWhile_before_quote:
  "no_quote u \<Longrightarrow> takeWhile (\<lambda>x. x \<noteq> dquote) (u @ dquote # r) = u"
  by (induction u) (auto simp: no_quote_def)

lemma dropWhile_before_quote:
  "no_quote u \<Longrightarrow> dropWhile (\<lambda>x. x \<noteq> dquote) (u @ dquote # r) = dquote # r"
  by (induction u) (auto simp: no_quote_def)

lemma takeWhile_no_quote: "no_quote u \<Longrightarrow> takeWhile (\<lambda>x. x \<noteq> dquote) u = u"
  by (induction u) (auto simp: no_quote_def)

lemma dropWhile_no_quote: "no_quote u \<Longrightarrow> dropWhile (\<lambda>x. x \<noteq> dquote) u = []"
  by (induction u) (auto simp: no_quote_def)

text \<open>An unquoted run in front of the end of the text or of a quote is one token.\<close>

lemma tokens_unquoted:
  assumes "no_quote u" and "u \<noteq> []" and "r = [] \<or> hd r = dquote"
  shows "tokens (u @ r) = u # tokens r"
proof -
  from assms(2) obtain c cs where u: "u = c # cs" by (cases u) auto
  with assms(1) have c: "c \<noteq> dquote" and cs: "no_quote cs"
    by (auto simp: no_quote_def)
  show ?thesis
  proof (cases r)
    case Nil
    with c cs u show ?thesis
      by (simp add: takeWhile_no_quote dropWhile_no_quote)
  next
    case (Cons q r')
    with assms(3) have "r = dquote # r'" by simp
    with c cs u show ?thesis
      by (simp add: takeWhile_before_quote dropWhile_before_quote)
  qed
qed

lemma tokens_quoted:
  assumes "no_quote t"
  shows "tokens (dquote # t @ dquote # r) = (dquote # t @ [dquote]) # tokens r"
  using assms by (simp add: takeWhile_before_quote dropWhile_before_quote)

lemma items_text_start: "items_text items = [] \<or> hd (items_text items) = dquote"
  by (cases items) (auto simp: items_text_def)

lemma quoted_unquoted: "no_quote u \<Longrightarrow> \<not> quoted u"
  by (cases u) (auto simp: quoted_def no_quote_def)

lemma filter_quoted_tokens_items:
  assumes "\<forall>(t, u) \<in> set items. no_quote t \<and> no_quote u"
  shows "filter quoted (tokens (items_text items)) = map (\<lambda>(t, u). dquote # t @ [dquote]) items"
  using assms
proof (induction items)
  case Nil
  then show ?case by (simp add: items_text_def)
next
  case (Cons item items)
  obtain t u where item: "item = (t, u)" by (cases item)
  with Cons.prems have t: "no_quote t" and u: "no_quote u"
    and rest: "\<forall>(t, u) \<in> set items. no_quote t \<and> no_quote u"
    by auto
  have unfolded: "items_text (item # items) = dquote # t @ dquote # (u @ items_text items)"
    by (simp add: items_text_def item)
  have "filter quoted (tokens (u @ items_text items)) = filter quoted (tokens (items_text items))"
  proof (cases "u = []")
    case True
    then show ?thesis by simp
  next
    case False
    with u items_text_start [of items] show ?thesis
      by (simp add: tokens_unquoted quoted_unquoted)
  qed
  moreover have "quoted (dquote # t @ [dquote])"
    by (simp add: quoted_def)
  moreover have "tokens (items_text (item # items)) =
      (dquote # t @ [dquote]) # tokens (u @ items_text items)"
    unfolding unfolded by (rule tokens_quoted [OF t])
  ultimately show ?case
    using Cons.IH [OF rest] by (simp add: item)
qed

lemma is_space_not_quote: "is_space c \<Longrightarrow> c \<noteq> dquote"
  by (auto simp: is_space_def dquote_def)

lemma trim_empty_all_space:
  assumes "trim s = []"
  shows "\<forall>c \<in> set s. is_space c"
proof -
  let ?d = "dropWhile is_space s"
  from assms have all: "\<forall>c \<in> set ?d. is_space c"
    by (simp add: trim_def dropWhile_eq_Nil_conv)
  have "?d = []"
  proof (rule ccontr)
    assume ne: "?d \<noteq> []"
    then have "\<not> is_space (hd ?d)" by (rule hd_dropWhile)
    moreover from ne have "hd ?d \<in> set ?d" by simp
    ultimately show False using all by blast
  qed
  then show ?thesis by (simp add: dropWhile_eq_Nil_conv)
qed

lemma trim_command_text:
  assumes "items \<noteq> []"
  shows "trim (command_text lead items) \<noteq> []"
proof
  assume "trim (command_text lead items) = []"
  then have "\<forall>c \<in> set (command_text lead items). is_space c"
    by (rule trim_empty_all_space)
  moreover from assms have "dquote \<in> set (command_text lead items)"
    by (cases items) (auto simp: command_text_def items_text_def)
  ultimately show False
    using is_space_not_quote by blast
qed

lemma task_rest_no_paren: "CHR ''('' \<notin> set s \<Longrightarrow> task_rest s = None"
proof -
  assume a: "CHR ''('' \<notin> set s"
  have "set (dropWhile is_space s) \<subseteq> set s"
    by (rule set_dropWhileD [THEN subsetI])
  with a show ?thesis
    by (auto simp: task_rest_def split: list.splits)
qed

lemma task_match_from_no_paren:
  "CHR ''('' \<notin> set s \<Longrightarrow> task_match_from taken s = None"
  by (induction s arbitrary: taken) (auto simp: task_rest_no_paren)

lemma task_match_no_paren: "CHR ''('' \<notin> set t \<Longrightarrow> task_match t = None"
  by (simp add: task_match_def task_match_from_no_paren)

lemma parseTask_default:
  "task_match t = None \<Longrightarrow>
   parseTask i t = \<lparr>id' = i, description = trim t, priority = ''medium'', type' = ''general'',
                     preferred_time = None\<rparr>"
  by (simp add: parseTask_def)

lemma enumerate_map_snd:
  "map (\<lambda>(n, x). f n (g x)) (enumerate k xs) = map (\<lambda>(n, y). f n y) (enumerate k (map g xs))"
  by (induction xs arbitrary: k) auto

lemma parse_items:
  assumes "lead \<noteq> []" and "no_quote lead"
    and "\<forall>(t, u) \<in> set items. no_quote t \<and> no_quote u"
  shows "tasks (parseScheduleCommand ids (command_text lead items)) =
           map (\<lambda>(n, t). parseTask (ids n) t) (enumerate 0 (map fst items))"
proof (cases "trim (command_text lead items) = []")
  case True
  with trim_command_text have "items = []" by blast
  with True show ?thesis by (simp add: parseScheduleCommand_def)
next
  case False
  have tok: "tokens (command_text lead items) = lead # tokens (items_text items)"
    unfolding command_text_def
    by (rule tokens_unquoted [OF assms(2) assms(1) items_text_start])
  have unq: "map slice_1_m1 (map (\<lambda>(t, u). dquote # t @ [dquote]) items) = map fst items"
    by (induction items) (auto simp: slice_1_m1_def)
  have "tasks (parseScheduleCommand ids (command_text lead items)) =
      map (\<lambda>(n, part). parseTask (ids n) (slice_1_m1 part))
        (enumerate 0 (map (\<lambda>(t, u). dquote # t @ [dquote]) items))"
    using False by (simp add: parseScheduleCommand_def tok filter_quoted_tokens_items [OF assms(3)])
  also have "\<dots> = map (\<lambda>(n, t). parseTask (ids n) t)
      (enumerate 0 (map slice_1_m1 (map (\<lambda>(t, u). dquote # t @ [dquote]) items)))"
    by (rule enumerate_map_snd)
  finally show ?thesis
    by (simp only: unq)
qed

text \<open>
  C8 (as amended). For a command text that starts with a non-empty unquoted part and then
  holds \<open>N\<close> quoted task strings, \<open>parseScheduleCommand\<close> yields exactly \<open>N\<close> tasks, the
  \<open>n\<close>-th of them parsed from the \<open>n\<close>-th quoted string. A task string that the pattern for
  a parenthesized parameter group does not match, as every string without an opening
  parenthesis, becomes the task whose description is the trimmed string, with priority
  \<open>medium\<close> and type \<open>general\<close>.
\<close>

theorem parseScheduleCommand_tasks:
  assumes "lead \<noteq> []" and "no_quote lead"
    and "\<forall>(t, u) \<in> set items. no_quote t \<and> no_quote u"
  shows "length (tasks (parseScheduleCommand ids (command_text lead items))) = length items \<and>
         tasks (parseScheduleCommand ids (command_text lead items)) =
           map (\<lambda>(n, t). parseTask (ids n) t) (enumerate 0 (map fst items)) \<and>
         (\<forall>i t. task_match t = None \<longrightarrow>
            parseTask i t = \<lparr>id' = i, description = trim t, priority = ''medium'',
                              type' = ''general'', preferred_time = None\<rparr>) \<and>
         (\<forall>t. CHR ''('' \<notin> set t \<longrightarrow> task_match t = None)"
  using parse_items [OF assms] parseTask_default task_match_no_paren by simp

theorem parseScheduleCommand_tasks_witness:
  "''9AM-5PM '' \<noteq> [] \<and> no_quote ''9AM-5PM '' \<and>
   no_quote ''Review code (high, general)'' \<and> no_quote '' '' \<and>
   no_quote ''Team meeting'' \<and> no_quote [] \<and>
   tasks (parseScheduleCommand digits_of
     (command_text ''9AM-5PM '' [(''Review code (high, general)'', '' ''), (''Team meeting'', [])])) =
     [\<lparr>id' = ''0'', description = ''Review code'', priority = ''high'', type' = ''general'',
       preferred_time = None\<rparr>,
      \<lparr>id' = ''1'', description = ''Team meeting'', priority = ''medium'', type' = ''general'',
       preferred_time = None\<rparr>]"
proof -
  have q: "no_quote ''9AM-5PM ''" "no_quote ''Review code (high, general)''" "no_quote '' ''"
    "no_quote ''Team meeting''" "no_quote []"
    by (simp_all add: no_quote_def dquote_def)
  have a: "parseTask ''0'' ''Review code (high, general)'' =
      \<lparr>id' = ''0'', description = ''Review code'', priority = ''high'', type' = ''general'',
       preferred_time = None\<rparr>"
    by (simp add: parseTask_def task_match_def task_rest_def is_space_def trim_def
        toLowerCase_def lower_char_def set_param_def validPriorities_def validTypes_def)
  have b: "parseTask ''1'' ''Team meeting'' =
      \<lparr>id' = ''1'', description = ''Team meeting'', priority = ''medium'', type' = ''general'',
       preferred_time = None\<rparr>"
    by (simp add: parseTask_def task_match_def task_rest_def is_space_def trim_def)
  have d: "digits_of 0 = ''0''" "digits_of (Suc 0) = ''1''"
    by (simp_all add: digits_of.simps digit_char_def digit_chars_def)
  show ?thesis
    using parseScheduleCommand_tasks [of "''9AM-5PM ''"
        "[(''Review code (high, general)'', '' ''), (''Team meeting'', [])]" digits_of] q
    by (simp add: a b d)
qed

text \<open>
  C8 as stated fails when the text starts with a quoted string: the first token is taken as
  the timeframe, quoted or not, and only the quoted tokens after it become tasks. The text
  \<open>"Review code"\<close> holds one well-formed quoted task string and yields no task.
\<close>

theorem parseScheduleCommand_leading_quote:
  "length (tasks (parseScheduleCommand digits_of (command_text [] [(''Review code'', [])]))) \<noteq>
     length [(''Review code'', [] :: string)] \<and>
   parseScheduleCommand digits_of (command_text [] [(''Review code'', [])]) =
     \<lparr>timeframe = Some (dquote # ''Review code'' @ [dquote]), tasks = []\<rparr>"
  by (simp add: parseScheduleCommand_def command_text_def items_text_def dquote_def trim_def
      is_space_def)

section \<open>Task validation\<close>

lemma validate_from_Valid:
  "validate_from i ts = Valid \<longleftrightarrow> (\<forall>t \<in> set ts. validateTask t = Valid)"
  by (induction ts arbitrary: i) (auto split: validation.splits)

text \<open>
  C9. \<open>validateTasks\<close> accepts a task list exactly when it has between 1 and 20 tasks and
  \<open>validateTask\<close> accepts each of them; the empty list gets the at-least-one-task error and
  a list of more than 20 tasks the maximum error. \<open>validateInput\<close> of utils.js, whose own
  maximum is 15, rejects the same two cases, so whichever of the two validated a request, it
  carries between 1 and 20 tasks.
\<close>

theorem validateTasks_bounds:
  "(validateTasks ts = Valid \<longleftrightarrow>
      1 \<le> length ts \<and> length ts \<le> 20 \<and> (\<forall>t \<in> set ts. validateTask t = Valid)) \<and>
   validateTasks [] = Invalid AtLeastOneTask \<and>
   (length ts > 20 \<longrightarrow> validateTasks ts = Invalid (MaximumTasks 20)) \<and>
   (validateInput inp = Valid \<longrightarrow>
      (\<exists>us. input_tasks inp = Some us \<and> 1 \<le> length us \<and> length us \<le> 15 \<and> length us \<le> 20)) \<and>
   (input_tasks inp = Some [] \<longrightarrow> validateInput inp \<noteq> Valid) \<and>
   (\<forall>us. input_tasks inp = Some us \<and> length us > 20 \<longrightarrow> validateInput inp \<noteq> Valid)"
proof -
  have "validateTasks ts = Valid \<longleftrightarrow>
      1 \<le> length ts \<and> length ts \<le> 20 \<and> (\<forall>t \<in> set ts. validateTask t = Valid)"
    by (auto simp: validateTasks_def validate_from_Valid Suc_le_eq)
  moreover have "validateTasks [] = Invalid AtLeastOneTask"
    by (simp add: validateTasks_def)
  moreover have "length ts > 20 \<longrightarrow> validateTasks ts = Invalid (MaximumTasks 20)"
    by (auto simp: validateTasks_def)
  moreover have "validateInput inp = Valid \<longrightarrow>
      (\<exists>us. input_tasks inp = Some us \<and> 1 \<le> length us \<and> length us \<le> 15 \<and> length us \<le> 20)"
    by (auto simp: validateInput_def Suc_le_eq split: if_splits option.splits list.splits)
  moreover have "input_tasks inp = Some [] \<longrightarrow> validateInput inp \<noteq> Valid"
    by (auto simp: validateInput_def split: option.splits list.splits)
  moreover have "\<forall>us. input_tasks inp = Some us \<and> length us > 20 \<longrightarrow> validateInput inp \<noteq> Valid"
    by (auto simp: validateInput_def split: if_splits option.splits list.splits)
  ultimately show ?thesis by blast
qed

theorem validateTasks_bounds_witness:
  "validateTasks [sample_task] = Valid \<and>
   validateTask sample_task = Valid \<and>
   validateTasks (replicate 21 sample_task) = Invalid (MaximumTasks 20) \<and>
   validateTasks [sample_task, sample_task\<lparr>description := ''   ''\<rparr>] \<noteq> Valid \<and>
   validateInput \<lparr>input_error = None, input_timeframe = Some ''morning'',
                  input_tasks = Some [sample_task]\<rparr> = Valid \<and>
   validateInput \<lparr>input_error = None, input_timeframe = Some ''morning'',
                  input_tasks = Some (replicate 16 sample_task)\<rparr> = Invalid (MaximumTasks 15)"
proof -
  have v: "validateTask sample_task = Valid"
    by (simp add: validateTask_def sample_task_def trim_def is_space_def validPriorities_def
        validTypes_def isValidTime_def time_rx_def rx_defs)
  have w: "validateTask (sample_task\<lparr>description := ''   ''\<rparr>) \<noteq> Valid"
    by (simp add: validateTask_def sample_task_def trim_def is_space_def)
  have i: "validateInput \<lparr>input_error = None, input_timeframe = Some ''morning'',
                  input_tasks = Some [sample_task]\<rparr> = Valid"
    "validateInput \<lparr>input_error = None, input_timeframe = Some ''morning'',
                  input_tasks = Some (replicate 16 sample_task)\<rparr> = Invalid (MaximumTasks 15)"
    by (simp_all add: validateInput_def truthy_string_def)
  let ?inp = "\<lparr>input_error = None, input_timeframe = Some ''morning'',
                  input_tasks = Some [sample_task]\<rparr>"
  show ?thesis
    using validateTasks_bounds [of "[sample_task]" ?inp]
      validateTasks_bounds [of "replicate 21 sample_task" ?inp]
      validateTasks_bounds [of "[sample_task, sample_task\<lparr>description := ''   ''\<rparr>]" ?inp]
      v w i
    by simp
qed

section \<open>Retries of the inference client\<close>













section \<open>Classification of errors\<close>

lemma callNIM_fatal:
  "backend (posts tr) = Failure e \<Longrightarrow> \<not> isRetryableError e \<Longrightarrow>
   callNIM maxRetries backend attempt tr = (Inl e, tr @ [Post])"
  by (simp add: callNIM.simps [of maxRetries backend attempt tr])

lemma makeRequest_fatal:
  "backend (posts tr) = Failure e \<Longrightarrow> \<not> services_isRetryableError e \<Longrightarrow>
   makeRequest maxRetries backend retryCount tr = (Inl e, tr @ [Post])"
  by (simp add: makeRequest.simps [of maxRetries backend retryCount tr])

text \<open>
  C4 (as amended). \<open>isRetryableError\<close> of nim-service.js marks as retryable exactly the
  timeout (code \<open>ECONNABORTED\<close>), the status 429 and every status from 500 on;
  \<open>isRetryableError\<close> of services/nim-service.js marks exactly the statuses 408, 429, 500,
  502, 503 and 504 and the connection reset (code \<open>ECONNRESET\<close>). In both clients an error
  that its classifier does not mark is fatal: the call ends with that error right after the
  failed request, with no delay and no further request.
\<close>

theorem retryable_errors:
  "(isRetryableError e \<longleftrightarrow>
      code e = Some ''ECONNABORTED'' \<or> (\<exists>s. status e = Some s \<and> (s = 429 \<or> 500 \<le> s))) \<and>
   (services_isRetryableError e \<longleftrightarrow>
      code e = Some ''ECONNRESET'' \<or>
      (\<exists>s. status e = Some s \<and> s \<in> {408, 429, 500, 502, 503, 504})) \<and>
   (backend (posts tr) = Failure e \<and> \<not> isRetryableError e \<longrightarrow>
      callNIM maxRetries backend attempt tr = (Inl e, tr @ [Post])) \<and>
   (backend (posts tr) = Failure e \<and> \<not> services_isRetryableError e \<longrightarrow>
      makeRequest maxRetries backend retryCount tr = (Inl e, tr @ [Post]))"
proof -
  have "isRetryableError e \<longleftrightarrow>
      code e = Some ''ECONNABORTED'' \<or> (\<exists>s. status e = Some s \<and> (s = 429 \<or> 500 \<le> s))"
    by (auto simp: isRetryableError_def split: option.splits)
  moreover have "services_isRetryableError e \<longleftrightarrow>
      code e = Some ''ECONNRESET'' \<or>
      (\<exists>s. status e = Some s \<and> s \<in> {408, 429, 500, 502, 503, 504})"
    by (auto simp: services_isRetryableError_def retryableStatus_def split: option.splits)
  ultimately show ?thesis
    using callNIM_fatal makeRequest_fatal by blast
qed

theorem retryable_errors_witness:
  "\<not> isRetryableError (status_error 401) \<and> \<not> services_isRetryableError (status_error 401) \<and>
   callNIM 2 (\<lambda>n. Failure (status_error 401)) 1 [] = (Inl (status_error 401), [Post]) \<and>
   makeRequest 2 (\<lambda>n. Failure (status_error 401)) 0 [] = (Inl (status_error 401), [Post]) \<and>
   isRetryableError (code_error ''ECONNABORTED'') \<and>
   services_isRetryableError (status_error 408)"
  using retryable_errors [of "status_error 401" "\<lambda>n. Failure (status_error 401)" "[]" 2 1 0]
    retryable_errors [of "code_error ''ECONNABORTED''"]
    retryable_errors [of "status_error 408"]
  by (simp add: status_error_def code_error_def)

text \<open>
  C4 as stated fails on both classifiers: the one of nim-service.js does not retry the
  status 408 nor a connection reset, the one of services/nim-service.js does not retry the
  statuses 501 and 505 nor a timeout.
\<close>

theorem retryable_errors_differ:
  "\<not> isRetryableError (status_error 408) \<and>
   \<not> isRetryableError (code_error ''ECONNRESET'') \<and>
   \<not> services_isRetryableError (status_error 501) \<and>
   \<not> services_isRetryableError (status_error 505) \<and>
   \<not> services_isRetryableError (code_error ''ECONNABORTED'') \<and>
   callNIM 2 (\<lambda>n. Failure (status_error 408)) 1 [] = (Inl (status_error 408), [Post]) \<and>
   makeRequest 3 (\<lambda>n. Failure (status_error 501)) 0 [] = (Inl (status_error 501), [Post])"
  by (simp add: isRetryableError_def services_isRetryableError_def retryableStatus_def
      status_error_def code_error_def callNIM.simps makeRequest.simps posts_def)

section \<open>Response validation and the fallback schedule\<close>

lemma check_items_Inr: "(\<exists>u. check_items i items = Inr u) \<longleftrightarrow> list_all complete_item items"
proof (induction items arbitrary: i)
  case Nil
  then show ?case by simp
next
  case (Cons item items)
  show ?case
  proof (cases "item = JNull")
    case True
    then show ?thesis by (simp add: complete_item_def field_def)
  next
    case False
    with Cons.IH [of "i + 1"] show ?thesis by (auto simp: complete_item_def)
  qed
qed

lemma schedule_array_Some:
  assumes "schedule_array v = Some items"
  shows "read_prop v ''schedule'' = Inr (Some (JArr items))"
proof -
  from assms have f: "field v ''schedule'' = Some (JArr items)"
    by (auto simp: schedule_array_def split: option.splits json.splits)
  then have "v \<noteq> JNull" by (auto simp: field_def)
  with f show ?thesis by (simp add: read_prop_def)
qed

lemma schedule_array_None:
  assumes "schedule_array v = None"
  shows "read_prop v ''schedule'' = Inl TypeError \<or>
         (\<exists>s. read_prop v ''schedule'' = Inr s \<and> (\<not> truthy s \<or> \<not> isArray s))"
proof (cases "v = JNull")
  case True
  then show ?thesis by (simp add: read_prop_def)
next
  case False
  have "\<not> isArray (field v ''schedule'')"
    using assms by (auto simp: schedule_array_def split: option.splits json.splits)
  with False show ?thesis by (simp add: read_prop_def)
qed

lemma parse_checked_unparseable:
  "JSON_parse (trim (strip_fences reply)) = None \<Longrightarrow> parse_checked JSON_parse reply = Inl SyntaxError"
  by (simp add: parse_checked_def)

lemma parse_checked_no_array:
  assumes "JSON_parse (trim (strip_fences reply)) = Some v" and "schedule_array v = None"
  shows "\<exists>e. parse_checked JSON_parse reply = Inl e"
  using assms(1) schedule_array_None [OF assms(2)]
  by (auto simp: parse_checked_def)

lemma parse_checked_items:
  assumes "JSON_parse (trim (strip_fences reply)) = Some v" and "schedule_array v = Some items"
  shows "parse_checked JSON_parse reply =
     (case check_items 0 items of Inl e \<Rightarrow> Inl e | Inr u \<Rightarrow> Inr v)"
  using assms(1) schedule_array_Some [OF assms(2)]
  by (simp add: parse_checked_def)

lemma parse_unparseable:
  "JSON_parse (trim (strip_fences reply)) = None \<Longrightarrow>
   parseScheduleResponse JSON_parse reply = createFallbackSchedule reply"
  by (simp add: parseScheduleResponse_def parse_checked_unparseable)

lemma parse_no_array:
  assumes "JSON_parse (trim (strip_fences reply)) = Some v" and "schedule_array v = None"
  shows "parseScheduleResponse JSON_parse reply = createFallbackSchedule reply"
  using parse_checked_no_array [of JSON_parse reply v, OF assms] by (auto simp: parseScheduleResponse_def)

lemma parse_incomplete:
  assumes "JSON_parse (trim (strip_fences reply)) = Some v" and "schedule_array v = Some items"
    and "\<not> list_all complete_item items"
  shows "parseScheduleResponse JSON_parse reply = createFallbackSchedule reply"
proof -
  from assms(3) check_items_Inr [of 0 items] obtain e where "check_items 0 items = Inl e"
    by (cases "check_items 0 items") auto
  then show ?thesis
    by (simp add: parseScheduleResponse_def parse_checked_items [of JSON_parse reply v items, OF assms(1,2)])
qed

lemma parse_complete:
  assumes "JSON_parse (trim (strip_fences reply)) = Some v" and "schedule_array v = Some items"
    and "list_all complete_item items"
  shows "parseScheduleResponse JSON_parse reply = v"
proof -
  from assms(3) check_items_Inr [of 0 items] obtain u where "check_items 0 items = Inr u"
    by auto
  then show ?thesis
    by (simp add: parseScheduleResponse_def parse_checked_items [of JSON_parse reply v items, OF assms(1,2)])
qed

lemma validateScheduleResponse_no_array:
  assumes "schedule_array v = None"
  shows "\<exists>e. validateScheduleResponse v = Inl e"
  using schedule_array_None [OF assms] by (auto simp: validateScheduleResponse_def)

lemma validateScheduleResponse_array:
  assumes "schedule_array v = Some items"
  shows "validateScheduleResponse v = Inr v"
  using schedule_array_Some [OF assms] by (simp add: validateScheduleResponse_def)

lemma fallback_shape:
  "total_tasks (createFallbackSchedule r) = Some (JNum 1)"
  "schedule_array (createFallbackSchedule r) =
     Some [JObj [(''task_id'', JNum 1),
                (''start_time'', JStr ''09:00''),
                (''end_time'', JStr ''17:00''),
                (''duration'', JNum 480),
                (''task'', JStr ''Review and organize your tasks''),
                (''priority'', JStr ''medium''),
                (''type'', JStr ''general''),
                (''reasoning'', JStr ''AI response could not be parsed - please try again'')]]"
  "diagnostic (createFallbackSchedule r) = ''Could not parse AI response - showing fallback schedule''"
  by (simp_all add: createFallbackSchedule_def total_tasks_def schedule_array_def diagnostic_def
      field_def)


lemma fallback_window:
  "\<exists>item. schedule_array (createFallbackSchedule r) = Some [item] \<and>
          item_window item = Some (Some 540, Some 1020)"
  by (simp add: fallback_shape item_window_def field_def timeToMinutes_presets)

lemma generateSchedule_reply:
  assumes "fst (callNIM maxRetries backend 1 []) = Inr reply"
  shows "fst (generateSchedule JSON_parse maxRetries backend tf ts) =
           Inr (parseScheduleResponse JSON_parse reply)"
  using assms by (cases "callNIM maxRetries backend 1 []") (simp add: generateSchedule_def)

text \<open>
  C1 (as amended). When the reply is not parseable JSON, or the parsed value has no schedule
  array, the schedule that \<open>parseScheduleResponse\<close> (and so \<open>generateSchedule\<close> of
  nim-service.js, once the backend replied) returns is the fallback: \<open>summary.total_tasks\<close>
  is 1, the schedule is one item from 09:00 to 17:00 (540 to 1020 minutes), whatever window
  was requested, and the diagnostic in its property \<open>error\<close> is not empty.
\<close>

theorem fallback_schedule:
  assumes "JSON_parse (trim (strip_fences reply)) = None \<or>
           (\<exists>v. JSON_parse (trim (strip_fences reply)) = Some v \<and> schedule_array v = None)"
  shows "parseScheduleResponse JSON_parse reply = createFallbackSchedule reply \<and>
         total_tasks (parseScheduleResponse JSON_parse reply) = Some (JNum 1) \<and>
         (\<exists>item. schedule_array (parseScheduleResponse JSON_parse reply) = Some [item] \<and>
                 item_window item = Some (Some 540, Some 1020)) \<and>
         diagnostic (parseScheduleResponse JSON_parse reply) \<noteq> [] \<and>
         (\<forall>maxRetries backend tf ts.
            fst (callNIM maxRetries backend 1 []) = Inr reply \<longrightarrow>
            fst (generateSchedule JSON_parse maxRetries backend tf ts) =
              Inr (createFallbackSchedule reply))"
proof -
  from assms have f: "parseScheduleResponse JSON_parse reply = createFallbackSchedule reply"
    using parse_unparseable [of JSON_parse reply] parse_no_array [of JSON_parse reply]
    by blast
  have "\<forall>maxRetries backend tf ts.
      fst (callNIM maxRetries backend 1 []) = Inr reply \<longrightarrow>
      fst (generateSchedule JSON_parse maxRetries backend tf ts) =
        Inr (createFallbackSchedule reply)"
    using generateSchedule_reply [of _ _ reply JSON_parse] f by simp
  with f fallback_window [of reply] show ?thesis
    by (simp add: fallback_shape)
qed

lemma not_json_rejected: "sample_JSON_parse (trim (strip_fences ''not json'')) = None"
  by (simp add: sample_JSON_parse_def sample_reply_def trim_def is_space_def fence_def newline_def)

lemma callNIM_replies: "callNIM maxRetries (\<lambda>n. Reply r) 1 [] = (Inr r, [Post])"
  by (subst callNIM.simps) simp

theorem fallback_schedule_witness:
  "sample_JSON_parse (trim (strip_fences ''not json'')) = None \<and>
   parseScheduleResponse sample_JSON_parse ''not json'' = createFallbackSchedule ''not json'' \<and>
   total_tasks (parseScheduleResponse sample_JSON_parse ''not json'') = Some (JNum 1) \<and>
   diagnostic (parseScheduleResponse sample_JSON_parse ''not json'') =
     ''Could not parse AI response - showing fallback schedule'' \<and>
   fst (callNIM 2 (\<lambda>n. Reply ''not json'') 1 []) = Inr ''not json'' \<and>
   fst (generateSchedule sample_JSON_parse 2 (\<lambda>n. Reply ''not json'') ''morning'' [sample_task]) =
     Inr (createFallbackSchedule ''not json'')"
  using fallback_schedule [of sample_JSON_parse "''not json''"] not_json_rejected
    callNIM_replies [of 2 "''not json''"]
  by (simp add: fallback_shape)

lemma validate_morning: "validateTimeframe ''morning'' = Inr (morning, Some 180)"
proof -
  have m: "\<forall>format \<in> set formats. \<not> rx_match format ''morning''"
    by (simp add: formats_def rx_defs)
  have "normalizeTimeframe ''morning'' = Inr (Some morning)"
    by (simp add: normalizeTimeframe_unmatched [OF m] presets_get_def presets_def
        toLowerCase_def lower_char_def timeToMinutes_presets morning_def)
  then show ?thesis
    by (simp add: validateTimeframe_def trim_def is_space_def check_normalized_def morning_def
        js_ge_def js_lt_def js_gt_def js_minus_def)
qed

text \<open>
  C1 as stated fails for every request whose window is not 09:00 to 17:00: for the
  timeframe \<open>morning\<close>, validated to the window 540 to 720, and the reply \<open>not json\<close>, the
  pipeline returns the fallback, whose one item does not span that window.
\<close>

theorem fallback_ignores_window:
  "validateTimeframe ''morning'' = Inr (morning, Some 180) \<and>
   fst (generateSchedule sample_JSON_parse 2 (\<lambda>n. Reply ''not json'') ''morning'' [sample_task]) =
     Inr (createFallbackSchedule ''not json'') \<and>
   \<not> spans_window (createFallbackSchedule ''not json'') morning"
proof -
  have p: "parseScheduleResponse sample_JSON_parse ''not json'' = createFallbackSchedule ''not json''"
    using not_json_rejected by (rule parse_unparseable)
  have "fst (callNIM 2 (\<lambda>n. Reply ''not json'') 1 []) = Inr ''not json''"
    by (simp only: callNIM_replies fst_conv)
  then have "fst (generateSchedule sample_JSON_parse 2 (\<lambda>n. Reply ''not json'') ''morning''
      [sample_task]) = Inr (createFallbackSchedule ''not json'')"
    unfolding p [symmetric] by (rule generateSchedule_reply)
  moreover have "\<not> spans_window (createFallbackSchedule ''not json'') morning"
    by (simp add: spans_window_def fallback_shape item_window_def field_def morning_def
        timeToMinutes_presets)
  ultimately show ?thesis
    using validate_morning by simp
qed

text \<open>
  C5 (as amended). \<open>parseScheduleResponse\<close> of nim-service.js returns a schedule for every
  reply and never raises: the fallback when the text, stripped of its code fences, is not
  parseable JSON, when the parsed value has no schedule array, and when an item of the array
  has no truthy task label, start time or end time; the parsed value otherwise.
  \<open>validateScheduleResponse\<close> of services/nim-service.js has no fallback: it raises when the
  value has no schedule array, and returns the value otherwise without a look at the items;
  \<open>generateSchedule\<close> there raises to its caller when the reply is not parseable JSON or has
  no schedule array.
\<close>

lemma services_unparseable:
  assumes "makeRequest maxRetries backend 0 [] = (Inr content, tr)" and "JSON_parse content = None"
  shows "services_generateSchedule JSON_parse maxRetries backend tf ts =
           (Inl (Wrapped ''Schedule generation failed: '' SyntaxError), tr)"
  using assms by (simp add: services_generateSchedule_def)

lemma services_no_array:
  assumes "makeRequest maxRetries backend 0 [] = (Inr content, tr)"
    and "JSON_parse content = Some v" and "schedule_array v = None"
  shows "\<exists>e. services_generateSchedule JSON_parse maxRetries backend tf ts =
           (Inl (Wrapped ''Schedule generation failed: '' e), tr)"
  using assms(1,2) validateScheduleResponse_no_array [OF assms(3)]
  by (auto simp: services_generateSchedule_def)

theorem parseScheduleResponse_cases:
  "(JSON_parse (trim (strip_fences reply)) = None \<longrightarrow>
      parseScheduleResponse JSON_parse reply = createFallbackSchedule reply) \<and>
   (\<forall>v. JSON_parse (trim (strip_fences reply)) = Some v \<and> schedule_array v = None \<longrightarrow>
      parseScheduleResponse JSON_parse reply = createFallbackSchedule reply) \<and>
   (\<forall>v items. JSON_parse (trim (strip_fences reply)) = Some v \<and> schedule_array v = Some items \<and>
      \<not> list_all complete_item items \<longrightarrow>
      parseScheduleResponse JSON_parse reply = createFallbackSchedule reply) \<and>
   (\<forall>v items. JSON_parse (trim (strip_fences reply)) = Some v \<and> schedule_array v = Some items \<and>
      list_all complete_item items \<longrightarrow>
      parseScheduleResponse JSON_parse reply = v) \<and>
   (\<forall>v. schedule_array v = None \<longrightarrow> (\<exists>e. validateScheduleResponse v = Inl e)) \<and>
   (\<forall>v items. schedule_array v = Some items \<longrightarrow> validateScheduleResponse v = Inr v) \<and>
   (\<forall>maxRetries backend tf ts tr.
      makeRequest maxRetries backend 0 [] = (Inr reply, tr) \<and> JSON_parse reply = None \<longrightarrow>
      services_generateSchedule JSON_parse maxRetries backend tf ts =
        (Inl (Wrapped ''Schedule generation failed: '' SyntaxError), tr)) \<and>
   (\<forall>maxRetries backend tf ts tr v.
      makeRequest maxRetries backend 0 [] = (Inr reply, tr) \<and> JSON_parse reply = Some v \<and>
      schedule_array v = None \<longrightarrow>
      (\<exists>e. services_generateSchedule JSON_parse maxRetries backend tf ts =
         (Inl (Wrapped ''Schedule generation failed: '' e), tr)))"
proof -
  have "\<forall>maxRetries backend tf ts tr.
      makeRequest maxRetries backend 0 [] = (Inr reply, tr) \<and> JSON_parse reply = None \<longrightarrow>
      services_generateSchedule JSON_parse maxRetries backend tf ts =
        (Inl (Wrapped ''Schedule generation failed: '' SyntaxError), tr)"
    using services_unparseable [of _ _ reply _ JSON_parse] by blast
  moreover have "\<forall>maxRetries backend tf ts tr v.
      makeRequest maxRetries backend 0 [] = (Inr reply, tr) \<and> JSON_parse reply = Some v \<and>
      schedule_array v = None \<longrightarrow>
      (\<exists>e. services_generateSchedule JSON_parse maxRetries backend tf ts =
         (Inl (Wrapped ''Schedule generation failed: '' e), tr))"
    using services_no_array [of _ _ reply _ JSON_parse] by blast
  ultimately show ?thesis
    using parse_unparseable [of JSON_parse reply] parse_no_array [of JSON_parse reply]
      parse_incomplete [of JSON_parse reply] parse_complete [of JSON_parse reply]
      validateScheduleResponse_no_array validateScheduleResponse_array
    by blast
qed

lemma fenced_reply_stripped: "trim (strip_fences fenced_reply) = sample_reply"
  by (simp add: fenced_reply_def sample_reply_def fence_def newline_def dquote_def trim_def
      is_space_def)

theorem parseScheduleResponse_cases_witness:
  "sample_JSON_parse (trim (strip_fences ''not json'')) = None \<and>
   parseScheduleResponse sample_JSON_parse ''not json'' = createFallbackSchedule ''not json'' \<and>
   sample_JSON_parse (trim (strip_fences ''{}'')) = Some (JObj []) \<and>
   schedule_array (JObj []) = None \<and>
   parseScheduleResponse sample_JSON_parse ''{}'' = createFallbackSchedule ''{}'' \<and>
   sample_JSON_parse (trim (strip_fences fenced_reply)) = Some sample_value \<and>
   schedule_array sample_value =
     Some [JObj [(''task'', JStr ''Test task''), (''start_time'', JStr ''09:00''),
                 (''end_time'', JStr ''10:00'')]] \<and>
   complete_item (JObj [(''task'', JStr ''Test task''), (''start_time'', JStr ''09:00''),
                        (''end_time'', JStr ''10:00'')]) \<and>
   parseScheduleResponse sample_JSON_parse fenced_reply = sample_value \<and>
   validateScheduleResponse sample_value = Inr sample_value"
proof -
  have a: "sample_JSON_parse (trim (strip_fences ''{}'')) = Some (JObj [])"
    by (simp add: sample_JSON_parse_def sample_reply_def trim_def is_space_def fence_def
        newline_def)
  have b: "schedule_array (JObj []) = None"
    by (simp add: schedule_array_def field_def)
  have c: "sample_JSON_parse (trim (strip_fences fenced_reply)) = Some sample_value"
    by (simp add: fenced_reply_stripped sample_JSON_parse_def)
  have d: "schedule_array sample_value =
     Some [JObj [(''task'', JStr ''Test task''), (''start_time'', JStr ''09:00''),
                 (''end_time'', JStr ''10:00'')]]"
    by (simp add: schedule_array_def sample_value_def field_def)
  have e: "complete_item (JObj [(''task'', JStr ''Test task''), (''start_time'', JStr ''09:00''),
                        (''end_time'', JStr ''10:00'')])"
    by (simp add: complete_item_def field_def)
  show ?thesis
    using parseScheduleResponse_cases [of sample_JSON_parse "''not json''"]
      parseScheduleResponse_cases [of sample_JSON_parse "''{}''"]
      parseScheduleResponse_cases [of sample_JSON_parse fenced_reply]
      not_json_rejected a b c d e
    by simp
qed

lemma makeRequest_replies: "makeRequest maxRetries (\<lambda>n. Reply r) 0 [] = (Inr r, [Post])"
  by (subst makeRequest.simps) simp

text \<open>
  C5 as stated fails in services/nim-service.js: for the reply \<open>not json\<close> and for the reply
  \<open>{}\<close>, which has no schedule array, \<open>generateSchedule\<close> raises an error to its caller.
\<close>

theorem services_generateSchedule_raises:
  "services_generateSchedule sample_JSON_parse 3 (\<lambda>n. Reply ''not json'') ''morning'' [sample_task] =
     (Inl (Wrapped ''Schedule generation failed: '' SyntaxError), [Post]) \<and>
   services_generateSchedule sample_JSON_parse 3 (\<lambda>n. Reply ''{}'') ''morning'' [sample_task] =
     (Inl (Wrapped ''Schedule generation failed: ''
            (Error ''Invalid schedule format received from NIM'')), [Post]) \<and>
   validateScheduleResponse (JObj []) = Inl (Error ''Invalid schedule format received from NIM'')"
  by (simp add: services_generateSchedule_def makeRequest_replies sample_JSON_parse_def
      sample_reply_def validateScheduleResponse_def read_prop_def field_def)

end
